theory Spec2Isabelle
  imports Complex_Main "HOL-Library.Multiset" "HOL-Library.Log_Nat"
begin

section \<open>JavaScript strings and arrays\<close>

text \<open>
  Strings are character lists. Case mapping and white space are modelled on ASCII:
  \<open>toLowerCase\<close> maps \<open>A..Z\<close> to \<open>a..z\<close> and leaves every other character alone,
  \<open>trim\<close> strips tab, line feed, vertical tab, form feed, carriage return and space.
  Text with cased letters or white space beyond ASCII is outside this model.
\<close>

definition toLowerCase_char :: "char \<Rightarrow> char" where
  "toLowerCase_char c =
     (let n = (of_char c :: nat) in if 65 \<le> n \<and> n \<le> 90 then char_of (n + 32) else c)"

definition toLowerCase :: "string \<Rightarrow> string" where
  "toLowerCase s = map toLowerCase_char s"

definition is_space :: "char \<Rightarrow> bool" where
  "is_space c = (let n = (of_char c :: nat) in (9 \<le> n \<and> n \<le> 13) \<or> n = 32)"

definition trim :: "string \<Rightarrow> string" where
  "trim s = rev (dropWhile is_space (rev (dropWhile is_space s)))"

text \<open>\<open>s.startsWith(t)\<close> and \<open>s.includes(t)\<close> on strings.\<close>

fun startsWith :: "string \<Rightarrow> string \<Rightarrow> bool" where
  "startsWith s [] = True"
| "startsWith [] (d # t) = False"
| "startsWith (c # s) (d # t) = (c = d \<and> startsWith s t)"

fun includes_str :: "string \<Rightarrow> string \<Rightarrow> bool" where
  "includes_str [] t = (t = [])"
| "includes_str (c # s) t = (startsWith (c # s) t \<or> includes_str s t)"

text \<open>
  \<open>s.split(sep)\<close> where the separator matches exactly one character (a one-character
  string, or a character class such as \<open>/[,/|]/\<close>): the pieces between the separator
  characters, empty pieces included; a string without separator is one piece.
\<close>

fun split_str :: "(char \<Rightarrow> bool) \<Rightarrow> string \<Rightarrow> string list" where
  "split_str p [] = [[]]"
| "split_str p (c # cs) =
     (if p c then [] # split_str p cs
      else (case split_str p cs of w # ws \<Rightarrow> (c # w) # ws | [] \<Rightarrow> [[c]]))"

text \<open>\<open>Boolean(s)\<close> on a string: the empty string is falsy.\<close>

definition truthy :: "string \<Rightarrow> bool" where
  "truthy s = (s \<noteq> [])"

text \<open>\<open>v || d\<close> for a nullable string \<open>v\<close>.\<close>

definition or_default :: "string option \<Rightarrow> string \<Rightarrow> string" where
  "or_default v d = (case v of None \<Rightarrow> d | Some s \<Rightarrow> if truthy s then s else d)"

text \<open>\<open>xs.join(sep)\<close>.\<close>

fun join :: "string \<Rightarrow> string list \<Rightarrow> string" where
  "join sep [] = []"
| "join sep [x] = x"
| "join sep (x # y # ys) = x @ sep @ join sep (y # ys)"

text \<open>
  Numbers are doubles. The values that the routes compute with are rational, and a
  double is modelled by the rational it stands for: \<open>fl\<close> rounds a rational to the
  nearest number of 53 significant bits, ties to the even one, as the division and the
  multiplication of doubles do. The range of the exponent is not modelled: the
  quotients of array lengths are far from overflow and from subnormal numbers.
\<close>

definition pow2 :: "int \<Rightarrow> rat" where
  "pow2 k = (if 0 \<le> k then 2 ^ nat k else 1 / 2 ^ nat (- k))"

text \<open>For positive \<open>x\<close>, the exponent \<open>e\<close> with \<open>2^e \<le> x < 2^(e+1)\<close>.\<close>

definition exponent_of :: "rat \<Rightarrow> int" where
  "exponent_of x =
     (let (p, q) = quotient_of x; d = bitlen p - bitlen q
      in if pow2 d \<le> x then d else d - 1)"

definition round_half_even :: "rat \<Rightarrow> int" where
  "round_half_even r =
     (let f = \<lfloor>r\<rfloor>; d = r - of_int f
      in if d < 1 / 2 then f else if 1 / 2 < d then f + 1 else if even f then f else f + 1)"

definition fl :: "rat \<Rightarrow> rat" where
  "fl x =
     (if x = 0 then 0
      else (let a = \<bar>x\<bar>; ulp = pow2 (exponent_of a - 52)
            in sgn x * (of_int (round_half_even (a / ulp)) * ulp)))"

text \<open>\<open>x / y\<close> and \<open>x * y\<close> on doubles (\<open>y\<close> is never zero where the routes divide).\<close>

definition number_div :: "rat \<Rightarrow> rat \<Rightarrow> rat" where
  "number_div x y = fl (x / y)"

definition number_mul :: "rat \<Rightarrow> rat \<Rightarrow> rat" where
  "number_mul x y = fl (x * y)"

text \<open>\<open>Math.round\<close>: the nearest integer, halves upwards; it is exact on a double.\<close>

definition Math_round :: "rat \<Rightarrow> int" where
  "Math_round x = \<lfloor>x + 1 / 2\<rfloor>"

text \<open>
  \<open>xs.sort(cmp)\<close>: the sort of an array is stable (ECMAScript 2019), and with a
  consistent comparator the result is the stable ordering by \<open>cmp\<close>: each element goes
  in front of the first element that it does not compare greater than.
\<close>

fun sort_insert :: "('a \<Rightarrow> 'a \<Rightarrow> int) \<Rightarrow> 'a \<Rightarrow> 'a list \<Rightarrow> 'a list" where
  "sort_insert cmp x [] = [x]"
| "sort_insert cmp x (y # ys) =
     (if cmp x y \<le> 0 then x # y # ys else y # sort_insert cmp x ys)"

fun sort_js :: "('a \<Rightarrow> 'a \<Rightarrow> int) \<Rightarrow> 'a list \<Rightarrow> 'a list" where
  "sort_js cmp [] = []"
| "sort_js cmp (x # xs) = sort_insert cmp x (sort_js cmp xs)"

section \<open>lib/supabase: parseSkillsText\<close>

definition is_sep :: "char \<Rightarrow> bool" where
  "is_sep c = (c = CHR '','' \<or> c = CHR ''/'' \<or> c = CHR ''|'')"

definition parseSkillsText :: "string option \<Rightarrow> string list" where
  "parseSkillsText val =
     (case val of
        None \<Rightarrow> []
      | Some v \<Rightarrow> if \<not> truthy v then [] else filter truthy (map trim (split_str is_sep v)))"

section \<open>routes/jobs\<close>

text \<open>A row of the \<open>jobs\<close> table, as selected by the routes.\<close>

record job_row =
  row_id :: int
  row_company :: "string option"
  job_title :: "string option"
  job_function :: "string option"
  vacancies :: "string option"
  qualification :: "string option"
  experience :: "string option"

record job =
  job_id :: string
  title :: string
  company :: string
  location :: string
  salary :: string
  job_type :: string
  skills :: "string list"
  matchPercentage :: int
  postedDate :: string
  description :: string

text \<open>\<open>String(n)\<close> for an integer id.\<close>

function string_of_nat :: "nat \<Rightarrow> string" where
  "string_of_nat n =
     (if n < 10 then [char_of (48 + n)]
      else string_of_nat (n div 10) @ [char_of (48 + n mod 10)])"
  by pat_completeness auto
termination
  by (relation "measure (\<lambda>n. n)") auto

definition String :: "int \<Rightarrow> string" where
  "String i = (if i < 0 then CHR ''-'' # string_of_nat (nat (- i)) else string_of_nat (nat i))"

text \<open>The separator of the description: space, bullet (U+2022 in UTF-8), space.\<close>

definition bullet_sep :: string where
  "bullet_sep = [CHR '' '', CHR 0xE2, CHR 0x80, CHR 0xA2, CHR '' '']"

definition present :: "string option \<Rightarrow> string list" where
  "present v = (case v of None \<Rightarrow> [] | Some s \<Rightarrow> if truthy s then [s] else [])"

definition mapJob :: "job_row \<Rightarrow> job" where
  "mapJob r =
     (let skills = parseSkillsText (qualification r) in
      \<lparr> job_id = String (row_id r),
        title = or_default (job_title r) ''Untitled Role'',
        company = or_default (row_company r) ''Unknown Company'',
        location = or_default (job_function r) ''Not specified'',
        salary = ''Not specified'',
        job_type = (case vacancies r of
                      None \<Rightarrow> ''Open''
                    | Some v \<Rightarrow> if truthy v then v @ '' openings'' else ''Open''),
        skills = skills,
        matchPercentage = 60,
        postedDate = ''Recently'',
        description =
          (let d = join bullet_sep (present (qualification r) @ present (experience r))
           in if truthy d then d else ''See full job details'') \<rparr>)"

text \<open>
  The value of \<open>extracted_skills\<close> is JSON of any shape; \<open>getUserSkills\<close> keeps the
  strings of an array and answers the empty list for anything else (also for no resume).
\<close>

datatype json = JString string | JNumber int | JBool bool | JNull | JArray "json list"

fun strings_of :: "json list \<Rightarrow> string list" where
  "strings_of [] = []"
| "strings_of (JString s # vs) = s # strings_of vs"
| "strings_of (_ # vs) = strings_of vs"

definition getUserSkills :: "json option \<Rightarrow> string list" where
  "getUserSkills rawSkills =
     (case rawSkills of Some (JArray vs) \<Rightarrow> strings_of vs | _ \<Rightarrow> [])"

text \<open>The skills of the job that equal a user skill, letter case ignored.\<close>

definition matchingSkills_of :: "string list \<Rightarrow> job \<Rightarrow> string list" where
  "matchingSkills_of userSkills j =
     filter (\<lambda>skill. list_ex (\<lambda>userSkill. toLowerCase userSkill = toLowerCase skill) userSkills)
       (skills j)"

definition dynamicMatch :: "string list \<Rightarrow> job \<Rightarrow> int" where
  "dynamicMatch userSkills j =
     (if length (skills j) > 0
      then Math_round
             (number_mul
                (number_div (of_nat (length (matchingSkills_of userSkills j)))
                   (of_nat (length (skills j)))) 100)
      else 0)"

text \<open>The function mapped over the jobs of the listing.\<close>

definition withMatchScore :: "string list \<Rightarrow> job \<Rightarrow> job" where
  "withMatchScore userSkills j =
     j\<lparr>matchPercentage := max (dynamicMatch userSkills j) (matchPercentage j)\<rparr>"

text \<open>
  A query parameter is used when it is a non-empty string; \<open>None\<close> stands for a parameter
  that is absent or not a string.
\<close>

record query =
  search :: "string option"
  qtype :: "string option"
  qskills :: "string option"

definition used :: "string option \<Rightarrow> string option" where
  "used p = (case p of None \<Rightarrow> None | Some s \<Rightarrow> if truthy s then Some s else None)"

definition filter_search :: "string option \<Rightarrow> job list \<Rightarrow> job list" where
  "filter_search p jobsData =
     (case used p of
        None \<Rightarrow> jobsData
      | Some s \<Rightarrow>
          (let normalized = toLowerCase s in
           filter (\<lambda>j. includes_str (toLowerCase (title j)) normalized \<or>
                        includes_str (toLowerCase (company j)) normalized \<or>
                        list_ex (\<lambda>skill. includes_str (toLowerCase skill) normalized) (skills j))
             jobsData))"

definition filter_type :: "string option \<Rightarrow> job list \<Rightarrow> job list" where
  "filter_type p jobsData =
     (case used p of
        None \<Rightarrow> jobsData
      | Some t \<Rightarrow>
          (let normalizedType = toLowerCase t in
           filter (\<lambda>j. includes_str (toLowerCase (job_type j)) normalizedType) jobsData))"

definition filter_skills :: "string option \<Rightarrow> job list \<Rightarrow> job list" where
  "filter_skills p jobsData =
     (case used p of
        None \<Rightarrow> jobsData
      | Some s \<Rightarrow>
          (let skillList = map (\<lambda>skill. toLowerCase (trim skill)) (split_str (\<lambda>c. c = CHR '','') s) in
           filter (\<lambda>j. list_ex (\<lambda>skill.
                          list_ex (\<lambda>jobSkill. includes_str (toLowerCase jobSkill) skill) (skills j))
                        skillList)
             jobsData))"

text \<open>
  The answer of a route: the body of a success (status 200) or a status with a message.
  A database call answers \<open>data\<close> and \<open>error\<close>; the message of the error is what the
  routes read.
\<close>

datatype 'a response = Success 'a | Failure nat string

definition compare_desc :: "job \<Rightarrow> job \<Rightarrow> int" where
  "compare_desc a b = matchPercentage b - matchPercentage a"

text \<open>The list before the sort: the rows mapped, filtered and scored, in row order.\<close>

definition jobsWithMatchScore :: "query \<Rightarrow> job_row list \<Rightarrow> string list \<Rightarrow> job list" where
  "jobsWithMatchScore q rows userSkills =
     map (withMatchScore userSkills)
       (filter_skills (qskills q) (filter_type (qtype q) (filter_search (search q)
          (map mapJob rows))))"

text \<open>\<open>GET /\<close>: the body holds the jobs; \<open>total\<close> is their number.\<close>

definition get_jobs ::
  "query \<Rightarrow> job_row list option \<Rightarrow> string option \<Rightarrow> json option \<Rightarrow> job list response" where
  "get_jobs q data error rawSkills =
     (case error of
        Some message \<Rightarrow> Failure 500 message
      | None \<Rightarrow>
          Success (sort_js compare_desc
            (jobsWithMatchScore q (case data of None \<Rightarrow> [] | Some rows \<Rightarrow> rows)
               (getUserSkills rawSkills))))"

text \<open>
  \<open>GET /:id\<close>: \<open>idnum\<close> is \<open>Number(req.params.id)\<close>, \<open>None\<close> when that is NaN;
  \<open>data\<close> is the row found for it, if any.
\<close>

definition get_job ::
  "int option \<Rightarrow> job_row option \<Rightarrow> string option \<Rightarrow> json option \<Rightarrow> job response" where
  "get_job idnum data error rawSkills =
     (case idnum of
        None \<Rightarrow> Failure 400 ''Invalid job id''
      | Some _ \<Rightarrow>
         (case error of
            Some message \<Rightarrow> Failure 500 message
          | None \<Rightarrow>
             (case data of
                None \<Rightarrow> Failure 404 ''Job not found''
              | Some r \<Rightarrow>
                  (let j = mapJob r;
                       userSkills = getUserSkills rawSkills;
                       matchingSkills =
                         filter (\<lambda>skill. list_ex (\<lambda>userSkill.
                                   toLowerCase userSkill = toLowerCase skill) userSkills) (skills j);
                       matchScore =
                         (if length (skills j) > 0
                          then Math_round
                                 (number_mul
                                    (number_div (of_nat (length matchingSkills))
                                       (of_nat (length (skills j)))) 100)
                          else 0)
                   in Success (j\<lparr>matchPercentage := max matchScore (matchPercentage j)\<rparr>)))))"

section \<open>routes/skillGap\<close>

record training =
  name :: string
  provider :: string
  duration :: string
  level :: string
  url :: string

definition trainingRecommendations :: "(string \<times> training list) list" where
  "trainingRecommendations =
   [(''Next.js'',
       [\<lparr>name = ''Next.js Complete Course'', provider = ''Udemy'', duration = ''12 hours'',
          level = ''Intermediate'', url = ''#''\<rparr>,
        \<lparr>name = ''Next.js Documentation'', provider = ''Vercel'', duration = ''Self-paced'',
          level = ''All Levels'', url = ''#''\<rparr>]),
    (''Tailwind CSS'',
       [\<lparr>name = ''Tailwind CSS Mastery'', provider = ''Frontend Masters'', duration = ''6 hours'',
          level = ''Beginner'', url = ''#''\<rparr>,
        \<lparr>name = ''Tailwind CSS From Scratch'', provider = ''YouTube'', duration = ''3 hours'',
          level = ''Beginner'', url = ''#''\<rparr>]),
    (''Jest'',
       [\<lparr>name = ''Testing with Jest'', provider = ''Codecademy'', duration = ''8 hours'',
          level = ''Intermediate'', url = ''#''\<rparr>]),
    (''Django'',
       [\<lparr>name = ''Python Django Bootcamp'', provider = ''Coursera'', duration = ''20 hours'',
          level = ''Intermediate'', url = ''#''\<rparr>]),
    (''Redis'',
       [\<lparr>name = ''Redis Fundamentals'', provider = ''Redis University'', duration = ''4 hours'',
          level = ''Beginner'', url = ''#''\<rparr>]),
    (''Kubernetes'',
       [\<lparr>name = ''Kubernetes for Developers'', provider = ''Pluralsight'', duration = ''15 hours'',
          level = ''Advanced'', url = ''#''\<rparr>,
        \<lparr>name = ''CKA Certification Prep'', provider = ''Linux Foundation'', duration = ''30 hours'',
          level = ''Advanced'', url = ''#''\<rparr>]),
    (''System Design'',
       [\<lparr>name = ''System Design Interview'', provider = ''Educative'', duration = ''25 hours'',
          level = ''Advanced'', url = ''#''\<rparr>]),
    (''Micro-frontends'',
       [\<lparr>name = ''Micro-frontend Architecture'', provider = ''Egghead'', duration = ''8 hours'',
          level = ''Advanced'', url = ''#''\<rparr>]),
    (''Webpack'',
       [\<lparr>name = ''Webpack 5 Fundamentals'', provider = ''Frontend Masters'', duration = ''5 hours'',
          level = ''Intermediate'', url = ''#''\<rparr>]),
    (''Performance Optimization'',
       [\<lparr>name = ''Web Performance Fundamentals'', provider = ''Google'', duration = ''10 hours'',
          level = ''Intermediate'', url = ''#''\<rparr>])]"

definition general_course :: training where
  "general_course =
     \<lparr>name = ''General Full Stack Course'', provider = ''Coursera'', duration = ''40 hours'',
      level = ''Intermediate'', url = ''#''\<rparr>"

record analysis =
  jobTitle :: string
  an_company :: string
  overallMatch :: int
  matchingSkills :: "string list"
  missingSkills :: "string list"
  recommendedTrainings :: "training list"

text \<open>
  The body of one job of the analysis, from the job's title, company and skills;
  \<open>userSkills\<close> is in lower case already. The two filters go by index into the
  lower-cased copy of the skills. The table of trainings is looked up by its own keys
  (a skill named like a property of \<open>Object.prototype\<close> is outside this model).
\<close>

definition analyse :: "string list \<Rightarrow> string \<Rightarrow> string \<Rightarrow> string list \<Rightarrow> analysis" where
  "analyse userSkills t c jobSkills =
     (let jobSkillsLower = map toLowerCase jobSkills;
          matching = map fst (filter (\<lambda>(s, l). l \<in> set userSkills) (zip jobSkills jobSkillsLower));
          missing = map fst (filter (\<lambda>(s, l). l \<notin> set userSkills) (zip jobSkills jobSkillsLower));
          matchPercentage =
            (if length jobSkills > 0
             then Math_round
                    (number_mul (number_div (of_nat (length matching)) (of_nat (length jobSkills))) 100)
             else 0);
          recommended =
            take 3 (concat (map (\<lambda>skill. case map_of trainingRecommendations skill of
                                             None \<Rightarrow> [] | Some ts \<Rightarrow> ts) missing))
      in \<lparr> jobTitle = t,
           an_company = c,
           overallMatch = matchPercentage,
           matchingSkills = matching,
           missingSkills = missing,
           recommendedTrainings = (if length recommended > 0 then recommended else [general_course]) \<rparr>)"

definition compare_asc :: "analysis \<Rightarrow> analysis \<Rightarrow> int" where
  "compare_asc a b = overallMatch a - overallMatch b"

record gap_body =
  analysis_list :: "analysis list"
  gap_userSkills :: "string list"
  totalGaps :: nat

text \<open>
  \<open>GET /\<close> of the route on the \<open>jobs\<close> table (server/routes/skillGap.ts): the skills
  of a job are parsed from its qualification.
\<close>

definition jobAnalysis :: "string list \<Rightarrow> job_row list \<Rightarrow> analysis list" where
  "jobAnalysis userSkills rows =
     map (\<lambda>r. analyse userSkills
                 (or_default (job_title r) ''Untitled Role'')
                 (or_default (row_company r) ''Unknown Company'')
                 (parseSkillsText (qualification r))) rows"

definition get_skill_gap ::
  "job_row list option \<Rightarrow> string option \<Rightarrow> json option \<Rightarrow> gap_body response" where
  "get_skill_gap jobsRows error rawSkills =
     (let userSkills = map toLowerCase (getUserSkills rawSkills) in
      case error of
        Some message \<Rightarrow> Failure 500 message
      | None \<Rightarrow>
          (let sorted_analysis =
                 sort_js compare_asc
                   (jobAnalysis userSkills (case jobsRows of None \<Rightarrow> [] | Some rows \<Rightarrow> rows))
           in Success \<lparr> analysis_list = sorted_analysis,
                        gap_userSkills = userSkills,
                        totalGaps = fold (\<lambda>a sum. sum + length (missingSkills a)) sorted_analysis 0 \<rparr>))"

text \<open>
  \<open>GET /\<close> of the route on the in-memory database (dist-server/routes/skillGap.js):
  the profile may be missing, the jobs carry their skills.
\<close>

record profile =
  profile_userId :: string
  profile_name :: string
  profile_email :: string
  profile_phone :: string
  profile_education :: string
  profile_experience :: string
  profile_skills :: "string list"
  profile_resumeUrl :: "string option"
  profile_updatedAt :: string

definition get_skill_gap_db :: "profile option \<Rightarrow> job list \<Rightarrow> gap_body response" where
  "get_skill_gap_db prof jobs =
     (let userSkills = (case prof of None \<Rightarrow> [] | Some p \<Rightarrow> map toLowerCase (profile_skills p));
          sorted_analysis =
            sort_js compare_asc (map (\<lambda>j. analyse userSkills (title j) (company j) (skills j)) jobs)
      in Success \<lparr> analysis_list = sorted_analysis,
                   gap_userSkills = (case prof of None \<Rightarrow> [] | Some p \<Rightarrow> profile_skills p),
                   totalGaps = fold (\<lambda>a sum. sum + length (missingSkills a)) sorted_analysis 0 \<rparr>)"

section \<open>routes/profile: adding a skill\<close>

record resume_row =
  resume_id :: string
  file_url :: "string option"
  extracted_skills :: json
  parsed_role :: "string option"
  created_at :: string

definition normalizeSkills :: "json option \<Rightarrow> string list" where
  "normalizeSkills v = (case v of Some (JArray vs) \<Rightarrow> strings_of vs | _ \<Rightarrow> [])"

text \<open>
  The store is the list of the user's resumes, newest first: the latest resume is its
  head.
\<close>

definition getLatestResume :: "resume_row list \<Rightarrow> resume_row option" where
  "getLatestResume store = (case store of [] \<Rightarrow> None | r # _ \<Rightarrow> Some r)"

definition currentSkills_of :: "resume_row list \<Rightarrow> string list" where
  "currentSkills_of store = normalizeSkills (map_option extracted_skills (getLatestResume store))"

text \<open>
  \<open>POST /skills\<close>. The route does not look at the outcome of its write: \<open>write_ok\<close>
  says whether the database took it. A new row gets its id and its time from the
  database (\<open>new_id\<close>, \<open>now\<close>). The answer comes with the store after the call.
\<close>

definition add_skill ::
  "json option \<Rightarrow> bool \<Rightarrow> string \<Rightarrow> string \<Rightarrow> resume_row list
     \<Rightarrow> string list response \<times> resume_row list" where
  "add_skill body_skill write_ok new_id now store =
     (case body_skill of
        Some (JString skill) \<Rightarrow>
          if \<not> truthy skill then (Failure 400 ''Skill is required'', store)
          else
            (let latestResume = getLatestResume store;
                 currentSkills = normalizeSkills (map_option extracted_skills latestResume)
             in if skill \<in> set currentSkills then (Failure 409 ''Skill already exists'', store)
                else
                  (let nextSkills = currentSkills @ [skill];
                       written =
                         (case latestResume of
                            Some latest \<Rightarrow>
                              map (\<lambda>r. if resume_id r = resume_id latest
                                        then r\<lparr>extracted_skills := JArray (map JString nextSkills)\<rparr>
                                        else r) store
                          | None \<Rightarrow>
                              \<lparr> resume_id = new_id, file_url = Some [],
                                extracted_skills = JArray (map JString nextSkills),
                                parsed_role = None, created_at = now \<rparr> # store)
                   in (Success nextSkills, if write_ok then written else store)))
      | _ \<Rightarrow> (Failure 400 ''Skill is required'', store))"

section \<open>What the caller sees, and the specification's formulas\<close>

text \<open>The score that an answer of \<open>GET /:id\<close> reports, when it reports one.\<close>

definition reported :: "job response \<Rightarrow> int option" where
  "reported res = (case res of Success j \<Rightarrow> Some (matchPercentage j) | Failure _ _ \<Rightarrow> None)"

text \<open>
  The formulas in the words of the specification, to compare the routes with:
  the weighted final score, rounding to two decimals, the final score in percent,
  the skill score by exact or substring comparison (\<open>sub token entry\<close> is the substring
  test, in either direction), and the tokenisation on commas alone.
\<close>

definition spec_final :: "rat \<Rightarrow> rat \<Rightarrow> rat \<Rightarrow> rat" where
  "spec_final skillScore roleScore experienceScore =
     skillScore * (50 / 100) + roleScore * (30 / 100) + experienceScore * (20 / 100)"

definition round2 :: "rat \<Rightarrow> rat" where
  "round2 x = of_int (Math_round (x * 100)) / 100"

definition spec_finalScorePercent :: "rat \<Rightarrow> rat \<Rightarrow> rat \<Rightarrow> rat" where
  "spec_finalScorePercent skillScore roleScore experienceScore =
     round2 (spec_final skillScore roleScore experienceScore * 100)"

definition token_in_entry :: "string \<Rightarrow> string \<Rightarrow> bool" where
  "token_in_entry token entry = includes_str entry token"

definition entry_in_token :: "string \<Rightarrow> string \<Rightarrow> bool" where
  "entry_in_token token entry = includes_str token entry"

definition spec_token_matched :: "(string \<Rightarrow> string \<Rightarrow> bool) \<Rightarrow> string list \<Rightarrow> string \<Rightarrow> bool" where
  "spec_token_matched sub candidateSkills token =
     list_ex (\<lambda>entry. toLowerCase token = toLowerCase entry \<or>
                      sub (toLowerCase token) (toLowerCase entry)) candidateSkills"

definition spec_skillScore :: "(string \<Rightarrow> string \<Rightarrow> bool) \<Rightarrow> string list \<Rightarrow> string list \<Rightarrow> rat" where
  "spec_skillScore sub candidateSkills tokens =
     (if tokens = [] then 0
      else of_nat (length (filter (spec_token_matched sub candidateSkills) tokens)) /
           of_nat (length tokens))"

definition spec_tokenizeCsv :: "string \<Rightarrow> string list" where
  "spec_tokenizeCsv text = filter truthy (map trim (split_str (\<lambda>c. c = CHR '','') text))"

section \<open>Rounding and sorting\<close>

lemma pow2_powi: "pow2 k = 2 powi k"
  by (simp add: pow2_def power_int_def field_simps)

lemma pow2_pos: "0 < pow2 k"
  by (simp add: pow2_def)

lemma pow2_mono: "a \<le> b \<Longrightarrow> pow2 a \<le> pow2 b"
  unfolding pow2_powi by (rule power_int_increasing) simp_all

lemma pow2_strict_mono: "a < b \<Longrightarrow> pow2 a < pow2 b"
  unfolding pow2_powi by (rule power_int_strict_increasing) simp_all

lemma pow2_add: "pow2 (a + b) = pow2 a * pow2 b"
  unfolding pow2_powi by (rule power_int_add) simp

lemma pow2_nat: "pow2 (int n) = 2 ^ n"
  by (simp add: pow2_def)

lemma pow2_diff_nat: "pow2 (int a - int b) = 2 ^ a / 2 ^ b"
proof -
  have "pow2 (int a - int b) * pow2 (int b) = pow2 (int a)"
    by (simp add: pow2_add [symmetric])
  then show ?thesis
    by (simp add: pow2_nat field_simps)
qed

text \<open>The exponent of a positive number is a lower bound of it, as a power of two.\<close>

lemma exponent_of_lower:
  assumes "0 < x"
  shows "pow2 (exponent_of x) \<le> x"
proof -
  obtain p q where pq: "quotient_of x = (p, q)" by (cases "quotient_of x")
  then have q: "0 < q" by (rule quotient_of_denom_pos)
  have x: "x = of_int p / of_int q" using pq by (rule quotient_of_div)
  with assms q have p: "0 < p" by (simp add: zero_less_divide_iff)
  let ?d = "bitlen p - bitlen q"
  show ?thesis
  proof (cases "pow2 ?d \<le> x")
    case True
    then show ?thesis by (simp add: exponent_of_def pq)
  next
    case False
    have bp: "1 \<le> bitlen p" and bq: "1 \<le> bitlen q"
      using p q bitlen_eq_zero_iff [of p] bitlen_eq_zero_iff [of q] bitlen_nonneg [of p] bitlen_nonneg [of q]
      by linarith+
    have 1: "(2::int) ^ nat (bitlen p - 1) \<le> p" using bitlen_bounds [OF p] by simp
    have 2: "q < (2::int) ^ nat (bitlen q)" using bitlen_bounds [OF q] by simp
    have r1: "(2::rat) ^ nat (bitlen p - 1) \<le> of_int p"
      using 1 by (metis of_int_le_iff of_int_numeral of_int_power)
    have r2: "(of_int q :: rat) \<le> 2 ^ nat (bitlen q)"
      using 2 by (metis less_imp_le of_int_le_iff of_int_numeral of_int_power)
    have "?d - 1 = int (nat (bitlen p - 1)) - int (nat (bitlen q))"
      using bp bq by simp
    then have "pow2 (?d - 1) = 2 ^ nat (bitlen p - 1) / 2 ^ nat (bitlen q)"
      by (simp only: pow2_diff_nat)
    also have "\<dots> \<le> of_int p / 2 ^ nat (bitlen q)"
      using r1 by (simp add: divide_right_mono)
    also have "\<dots> \<le> of_int p / of_int q"
      using r2 p q by (simp add: divide_left_mono)
    finally have l: "pow2 (?d - 1) \<le> x" by (simp only: x)
    have "exponent_of x = ?d - 1"
      using False by (simp add: exponent_of_def pq)
    with l show ?thesis by simp
  qed
qed

lemma exponent_of_upper:
  assumes "0 < x"
  shows "x < pow2 (exponent_of x + 1)"
proof -
  obtain p q where pq: "quotient_of x = (p, q)" by (cases "quotient_of x")
  then have q: "0 < q" by (rule quotient_of_denom_pos)
  have x: "x = of_int p / of_int q" using pq by (rule quotient_of_div)
  with assms q have p: "0 < p" by (simp add: zero_less_divide_iff)
  let ?d = "bitlen p - bitlen q"
  show ?thesis
  proof (cases "pow2 ?d \<le> x")
    case False
    then have "exponent_of x = ?d - 1" by (simp add: exponent_of_def pq)
    with False show ?thesis by simp
  next
    case True
    have bp: "1 \<le> bitlen p" and bq: "1 \<le> bitlen q"
      using p q bitlen_eq_zero_iff [of p] bitlen_eq_zero_iff [of q] bitlen_nonneg [of p] bitlen_nonneg [of q]
      by linarith+
    have "p < (2::int) ^ nat (bitlen p)" using bitlen_bounds [OF p] by simp
    then have "(of_int p :: rat) < of_int (2 ^ nat (bitlen p))" by (simp only: of_int_less_iff)
    then have r1: "(of_int p :: rat) < 2 ^ nat (bitlen p)" by simp
    have "(2::int) ^ nat (bitlen q - 1) \<le> q" using bitlen_bounds [OF q] by simp
    then have "(of_int (2 ^ nat (bitlen q - 1)) :: rat) \<le> of_int q" by (simp only: of_int_le_iff)
    then have r2: "(2::rat) ^ nat (bitlen q - 1) \<le> of_int q" by simp
    have "x = of_int p / of_int q" by (rule x)
    also have "\<dots> < 2 ^ nat (bitlen p) / of_int q"
      using r1 q by (simp add: divide_strict_right_mono)
    also have "\<dots> \<le> 2 ^ nat (bitlen p) / 2 ^ nat (bitlen q - 1)"
      by (rule divide_left_mono [OF r2]) (use q in simp_all)
    also have "\<dots> = pow2 (int (nat (bitlen p)) - int (nat (bitlen q - 1)))"
      by (simp only: pow2_diff_nat)
    also have "int (nat (bitlen p)) - int (nat (bitlen q - 1)) = ?d + 1"
      using bp bq by simp
    finally have "x < pow2 (?d + 1)" .
    moreover have "exponent_of x = ?d" using True by (simp add: exponent_of_def pq)
    ultimately show ?thesis by simp
  qed
qed

lemma round_half_even_le:
  assumes "r \<le> of_int k"
  shows "round_half_even r \<le> k"
proof -
  have f: "\<lfloor>r\<rfloor> \<le> k" using assms by (simp add: floor_le_iff)
  show ?thesis
  proof (cases "r = of_int \<lfloor>r\<rfloor>")
    case True
    then have "r - of_int \<lfloor>r\<rfloor> = 0" by simp
    then show ?thesis using f by (simp add: round_half_even_def Let_def)
  next
    case False
    have "of_int \<lfloor>r\<rfloor> < r"
      by (rule le_neq_trans [OF of_int_floor_le False [symmetric]])
    from this assms have "(of_int \<lfloor>r\<rfloor> :: rat) < of_int k" by (rule less_le_trans)
    then have "\<lfloor>r\<rfloor> < k" by (simp only: of_int_less_iff)
    then show ?thesis by (simp add: round_half_even_def Let_def)
  qed
qed

lemma round_half_even_nonneg: "0 \<le> r \<Longrightarrow> 0 \<le> round_half_even r"
  by (simp add: round_half_even_def Let_def)

lemma fl_nonneg:
  assumes "0 \<le> x"
  shows "0 \<le> fl x"
proof (cases "x = 0")
  case True
  then show ?thesis by (simp add: fl_def)
next
  case False
  with assms have x: "0 < x" by simp
  have "0 \<le> x / pow2 (exponent_of x - 52)"
    using x pow2_pos [of "exponent_of x - 52"] by (simp add: less_imp_le)
  then have "0 \<le> round_half_even (x / pow2 (exponent_of x - 52))"
    by (rule round_half_even_nonneg)
  then show ?thesis
    using x pow2_pos [of "exponent_of x - 52"] by (simp add: fl_def Let_def)
qed

text \<open>Rounding does not pass an integer below \<open>2^52\<close>: these are doubles themselves.\<close>

lemma fl_le_int:
  assumes "0 < x" "x \<le> of_int k" "k \<le> 2 ^ 52"
  shows "fl x \<le> of_int k"
proof -
  let ?e = "exponent_of x"
  have "pow2 ?e \<le> x" using assms(1) by (rule exponent_of_lower)
  also have "x \<le> of_int k" by (rule assms(2))
  also have "(of_int k :: rat) \<le> pow2 52"
  proof -
    have "(of_int k :: rat) \<le> of_int (2 ^ 52)"
      using assms(3) by (simp only: of_int_le_iff)
    then show ?thesis by (simp add: pow2_def)
  qed
  finally have "\<not> pow2 52 < pow2 ?e" by simp
  then have e: "?e \<le> 52" using pow2_strict_mono [of 52 ?e] by (cases "?e \<le> 52") auto
  define n where "n = nat (52 - ?e)"
  have u: "pow2 (?e - 52) = 1 / 2 ^ n"
  proof -
    have "pow2 (?e - 52) * pow2 (int n) = pow2 0"
      unfolding pow2_add [symmetric] using e by (simp add: n_def)
    then show ?thesis by (simp add: pow2_nat pow2_def field_simps)
  qed
  have "x / pow2 (?e - 52) = x * 2 ^ n" by (simp add: u)
  also have "\<dots> \<le> of_int k * 2 ^ n" using assms(2) by simp
  also have "\<dots> = of_int (k * 2 ^ n)" by simp
  finally have "round_half_even (x / pow2 (?e - 52)) \<le> k * 2 ^ n"
    by (rule round_half_even_le)
  then have "(of_int (round_half_even (x / pow2 (?e - 52))) :: rat) \<le> of_int (k * 2 ^ n)"
    by (simp only: of_int_le_iff)
  then have "of_int (round_half_even (x / pow2 (?e - 52))) * pow2 (?e - 52) \<le> of_int k"
    by (simp add: u field_simps)
  then show ?thesis
    using assms(1) by (simp add: fl_def Let_def)
qed

lemma round_half_even_error: "\<bar>of_int (round_half_even r) - r\<bar> \<le> 1 / 2"
proof -
  have "of_int \<lfloor>r\<rfloor> \<le> r" "r < of_int \<lfloor>r\<rfloor> + 1"
    by linarith+
  then show ?thesis
    by (auto simp: round_half_even_def Let_def abs_le_iff)
qed

text \<open>
  \<open>fl\<close> is a rounding to 53 significant bits: the result is a multiple of the unit in
  the last place and at most half a unit away.
\<close>

lemma fl_error:
  assumes "0 < x"
  shows "\<bar>fl x - x\<bar> \<le> pow2 (exponent_of x - 52) / 2"
proof -
  let ?u = "pow2 (exponent_of x - 52)"
  have u: "0 < ?u" by (rule pow2_pos)
  have "fl x - x = (of_int (round_half_even (x / ?u)) - x / ?u) * ?u"
    using assms u by (simp add: fl_def Let_def field_simps)
  then have "\<bar>fl x - x\<bar> = \<bar>of_int (round_half_even (x / ?u)) - x / ?u\<bar> * ?u"
    using u by (simp add: abs_mult)
  also have "\<dots> \<le> 1 / 2 * ?u"
    using round_half_even_error [of "x / ?u"] u by (intro mult_right_mono) simp_all
  finally show ?thesis by simp
qed

text \<open>The percentage of \<open>m\<close> out of \<open>n\<close>, as the routes compute it.\<close>

lemma number_div_bounds:
  assumes "0 < n" "m \<le> n"
  shows "0 \<le> number_div (of_nat m) (of_nat n)" "number_div (of_nat m) (of_nat n) \<le> 1"
proof -
  have q: "(0::rat) \<le> of_nat m / of_nat n" "(of_nat m / of_nat n :: rat) \<le> of_int 1"
    using assms by (simp_all add: field_simps)
  show "0 \<le> number_div (of_nat m) (of_nat n)"
    unfolding number_div_def using q(1) by (rule fl_nonneg)
  show "number_div (of_nat m) (of_nat n) \<le> 1"
  proof (cases "m = 0")
    case True
    then show ?thesis by (simp add: number_div_def fl_def)
  next
    case False
    with assms have "(0::rat) < of_nat m / of_nat n" by simp
    from fl_le_int [OF this q(2)] show ?thesis by (simp add: number_div_def)
  qed
qed

lemma percent_bounds:
  assumes "0 < n" "m \<le> n"
  shows "0 \<le> Math_round (number_mul (number_div (of_nat m) (of_nat n)) 100)"
    "Math_round (number_mul (number_div (of_nat m) (of_nat n)) 100) \<le> 100"
proof -
  let ?q = "number_div (of_nat m) (of_nat n)"
  note q = number_div_bounds [OF assms]
  have p0: "0 \<le> number_mul ?q 100"
    unfolding number_mul_def using q(1) by (intro fl_nonneg) simp
  have p1: "number_mul ?q 100 \<le> 100"
  proof (cases "?q = 0")
    case True
    then show ?thesis by (simp add: number_mul_def fl_def)
  next
    case False
    with q(1) have "0 < ?q * 100" by simp
    moreover have "?q * 100 \<le> of_int 100" using q(2) by simp
    ultimately have "fl (?q * 100) \<le> of_int 100" by (rule fl_le_int) simp
    then show ?thesis by (simp add: number_mul_def)
  qed
  show "0 \<le> Math_round (number_mul ?q 100)"
    unfolding Math_round_def using p0 by (simp add: le_floor_iff)
  have "number_mul ?q 100 + 1 / 2 < of_int 101" using p1 by simp
  then have "\<lfloor>number_mul ?q 100 + 1 / 2\<rfloor> < 101" by (simp only: floor_less_iff)
  then show "Math_round (number_mul ?q 100) \<le> 100"
    unfolding Math_round_def by simp
qed

text \<open>
  The double arithmetic shows: 23 of 40 is 57.5 percent exactly, the product of the
  doubles falls just below it and rounds to 57.
\<close>

lemma percent_of_doubles: "Math_round (number_mul (number_div (of_nat 23) (of_nat 40)) 100) = 57"
  by code_simp

lemma fl_error_below:
  assumes "0 < x" "x < pow2 k"
  shows "\<bar>fl x - x\<bar> \<le> pow2 (k - 53) / 2"
proof -
  have "pow2 (exponent_of x) \<le> x" using assms(1) by (rule exponent_of_lower)
  with assms(2) have "pow2 (exponent_of x) < pow2 k" by simp
  then have "\<not> pow2 k \<le> pow2 (exponent_of x)" by simp
  then have "\<not> k \<le> exponent_of x" using pow2_mono by blast
  then have "exponent_of x - 52 \<le> k - 53" by simp
  then have "pow2 (exponent_of x - 52) \<le> pow2 (k - 53)" by (rule pow2_mono)
  with fl_error [OF assms(1)] show ?thesis by simp
qed

lemma fl_one: "fl 1 = 1" by code_simp
lemma fl_hundred: "fl 100 = 100" by code_simp

text \<open>
  The exact halves above the base: where \<open>100 * m / n\<close> is \<open>k - 1/2\<close> for an integer
  \<open>k\<close> from 61 to 100, the doubles give \<open>k\<close> as well.
\<close>

lemma halves_above_base:
  "list_all (\<lambda>k. Math_round (number_mul (fl ((2 * of_int k - 1) / 200)) 100) = k) [61..100]"
  by code_simp


lemma percent_error:
  assumes n: "0 < n" and mn: "m \<le> n"
  shows "\<bar>number_mul (number_div (of_nat m) (of_nat n)) 100 - 100 * (of_nat m / of_nat n)\<bar> < 1 / 2 ^ 46"
proof -
  define q :: rat where "q = of_nat m / of_nat n"
  define q' where "q' = fl q"
  define p' where "p' = fl (q' * 100)"
  have q01: "0 \<le> q" "q \<le> 1"
    using n mn by (simp_all add: q_def field_simps)
  have q'01: "0 \<le> q'" "q' \<le> 1"
    using number_div_bounds [OF n mn] by (simp_all add: q'_def q_def number_div_def)
  have goal: "\<bar>p' - 100 * q\<bar> < 1 / 2 ^ 46"
  proof (cases "q = 0 \<or> q = 1")
    case True
    then show ?thesis
      by (auto simp: p'_def q'_def fl_one fl_hundred) (simp add: fl_def)
  next
    case False
    with q01 have q: "0 < q" "q < pow2 0" by (simp_all add: pow2_def)
    from fl_error_below [OF q] have e1: "\<bar>q' - q\<bar> \<le> 1 / 2 ^ 54"
      by (simp add: q'_def pow2_def)
    show ?thesis
    proof (cases "q' = 0")
      case True
      then have "p' = 0" by (simp add: p'_def fl_def)
      with e1 True show ?thesis by (simp add: abs_le_iff)
    next
      case False
      with q'01 have "0 < q' * 100" "q' * 100 < pow2 7" by (simp_all add: pow2_def)
      from fl_error_below [OF this] have e2: "\<bar>p' - q' * 100\<bar> \<le> 1 / 2 ^ 47"
        by (simp add: p'_def pow2_def)
      have "\<bar>p' - 100 * q\<bar> \<le> \<bar>p' - q' * 100\<bar> + 100 * \<bar>q' - q\<bar>"
        by (simp add: abs_le_iff abs_if)
      also have "\<dots> \<le> 1 / 2 ^ 47 + 100 * (1 / 2 ^ 54)"
        using e1 e2 by simp
      also have "\<dots> < 1 / 2 ^ 46" by simp
      finally show ?thesis .
    qed
  qed
  then show ?thesis
    by (simp add: p'_def q'_def q_def number_mul_def number_div_def)
qed

text \<open>
  Above the base of 60 the double arithmetic gives the exact percentage, rounded
  halves upwards, for every array of up to \<open>2^40\<close> skills; below, the two may differ
  (\<open>percent_of_doubles\<close>), which the maximum with the base hides.
\<close>

lemma percent_exact_above_base:
  assumes n: "0 < n" and mn: "m \<le> n" and big: "n \<le> 2 ^ 40"
  shows "max (Math_round (number_mul (number_div (of_nat m) (of_nat n)) 100)) 60
       = max ((200 * int m + int n) div (2 * int n)) 60"
proof -
  define q :: rat where "q = of_nat m / of_nat n"
  define p' where "p' = number_mul (number_div (of_nat m) (of_nat n)) 100"
  define R where "R = (200 * int m + int n) div (2 * int n)"
  define r where "r = (200 * int m + int n) mod (2 * int n)"
  define E :: rat where "E = 100 * q + 1 / 2"
  have n': "(0::rat) < of_nat n" using n by simp
  have err: "\<bar>p' - 100 * q\<bar> < 1 / 2 ^ 46"
    using percent_error [OF n mn] by (simp add: p'_def q_def)
  have "200 * int m + int n = 2 * int n * R + r"
    by (simp add: R_def r_def)
  then have "(of_int (200 * int m + int n) :: rat) = of_int (2 * int n * R + r)"
    by (simp only:)
  then have "200 * of_nat m + of_nat n = 2 * of_nat n * of_int R + (of_int r :: rat)"
    by simp
  then have ER: "E = of_int R + of_int r / (2 * of_nat n)"
    using n' by (simp add: E_def q_def field_simps)
  have r0: "0 \<le> r" and r1: "r < 2 * int n"
    using n by (simp_all add: r_def)
  have q1: "q \<le> 1" using n mn by (simp add: q_def field_simps)
  show ?thesis
  proof (cases "r = 0")
    case False
    with r0 r1 have "1 \<le> r" "r \<le> 2 * int n - 1" by simp_all
    then have "(of_int 1 :: rat) \<le> of_int r" "(of_int r :: rat) \<le> of_int (2 * int n - 1)"
      by (simp_all only: of_int_le_iff)
    then have rr: "(1::rat) \<le> of_int r" "(of_int r :: rat) \<le> 2 * of_nat n - 1"
      by simp_all
    have "(of_nat n :: rat) \<le> of_nat (2 ^ 40)"
      using big by (simp only: of_nat_le_iff)
    then have nb: "(of_nat n :: rat) \<le> 2 ^ 40" by simp
    have small: "(1 / 2 ^ 46 :: rat) \<le> 1 / (2 * of_nat n)"
    proof -
      have "(2 * of_nat n :: rat) \<le> 2 ^ 46" using nb by simp
      then show ?thesis using n' by (simp add: field_simps)
    qed
    have lo: "1 / (2 * of_nat n) \<le> (of_int r :: rat) / (2 * of_nat n)"
      using rr(1) n' by (simp add: divide_right_mono)
    have hi: "(of_int r :: rat) / (2 * of_nat n) \<le> 1 - 1 / (2 * of_nat n)"
      using rr(2) n' by (simp add: field_simps)
    define a :: rat where "a = of_int r / (2 * of_nat n)"
    define h :: rat where "h = 1 / (2 * of_nat n)"
    define d :: rat where "d = 1 / 2 ^ 46"
    have "- d < p' - 100 * q" "p' - 100 * q < d"
      using err unfolding d_def abs_less_iff by linarith+
    moreover have "100 * q + 1 / 2 = of_int R + a"
      using ER by (simp only: E_def a_def)
    moreover have "h \<le> a" "a \<le> 1 - h" "d \<le> h"
      using lo hi small by (simp_all only: a_def h_def d_def)
    ultimately have "of_int R \<le> p' + 1 / 2" "p' + 1 / 2 < of_int R + 1"
      by linarith+
    then have "\<lfloor>p' + 1 / 2\<rfloor> = R" by (rule floor_unique)
    then show ?thesis
      by (simp add: Math_round_def p'_def R_def)
  next
    case True
    with ER have E: "100 * q + 1 / 2 = of_int R" by (simp add: E_def)
    have "\<bar>p' - 100 * q\<bar> < 1" using err by simp
    then have "- 1 < p' - 100 * q" "p' - 100 * q < 1"
      unfolding abs_less_iff by linarith+
    with E have "of_int R - 1 \<le> p' + 1 / 2" "p' + 1 / 2 < of_int R + 1"
      by linarith+
    then have "of_int (R - 1) \<le> p' + 1 / 2" "p' + 1 / 2 < of_int (R + 1)"
      by simp_all
    then have "R - 1 \<le> \<lfloor>p' + 1 / 2\<rfloor>" "\<lfloor>p' + 1 / 2\<rfloor> < R + 1"
      by (simp_all only: le_floor_iff floor_less_iff)
    then have near: "R - 1 \<le> Math_round p'" "Math_round p' \<le> R"
      by (simp_all add: Math_round_def)
    show ?thesis
    proof (cases "R \<le> 60")
      case True
      with near show ?thesis by (simp add: p'_def R_def)
    next
      case False
      have "(of_int R :: rat) \<le> of_int 100 + 1 / 2"
        using E q1 by simp
      then have "(of_int R :: rat) < of_int 101" by simp
      then have "R < 101" by (simp only: of_int_less_iff)
      with False have "R \<in> {61..100}" by simp
      then have "R \<in> set [61..100]" by (simp only: set_upto)
      with halves_above_base
      have v: "Math_round (number_mul (fl ((2 * of_int R - 1) / 200)) 100) = R"
        by (simp only: list_all_iff)
      have qR: "q = (2 * of_int R - 1) / 200" using E by (simp add: field_simps)
      have "p' = number_mul (fl q) 100"
        by (simp only: p'_def number_div_def q_def)
      then have "p' = number_mul (fl ((2 * of_int R - 1) / 200)) 100"
        by (simp only: qR)
      with v show ?thesis by (simp add: p'_def R_def)
    qed
  qed
qed

lemma sort_insert_insort_key:
  assumes "\<And>a b. (cmp a b \<le> 0) = (k a \<le> k b)"
  shows "sort_insert cmp x xs = insort_key k x xs"
  by (induction xs) (simp_all add: assms)

lemma sort_js_sort_key:
  fixes k :: "'a \<Rightarrow> int"
  assumes "\<And>a b. (cmp a b \<le> 0) = (k a \<le> k b)"
  shows "sort_js cmp xs = sort_key k xs"
  by (induction xs) (simp_all add: sort_insert_insort_key [OF assms])

lemma sort_desc: "sort_js compare_desc xs = sort_key (\<lambda>j. - matchPercentage j) xs"
  by (rule sort_js_sort_key) (simp add: compare_desc_def)

lemma sort_asc: "sort_js compare_asc xs = sort_key overallMatch xs"
  by (rule sort_js_sort_key) (simp add: compare_asc_def)

lemma sorted_desc: "sorted_wrt (\<lambda>a b. matchPercentage b \<le> matchPercentage a) (sort_js compare_desc xs)"
proof -
  have "sorted (map (\<lambda>j. - matchPercentage j) (sort_key (\<lambda>j. - matchPercentage j) xs))"
    by (rule sorted_sort_key)
  then show ?thesis
    by (simp add: sort_desc sorted_map)
qed

lemma stable_desc:
  "filter (\<lambda>j. matchPercentage j = p) (sort_js compare_desc xs) = filter (\<lambda>j. matchPercentage j = p) xs"
  using sort_key_stable [of "\<lambda>j. - matchPercentage j" "- p" xs] by (simp add: sort_desc)

lemma mset_desc: "mset (sort_js compare_desc xs) = mset xs"
  by (simp add: sort_desc)

lemma sorted_asc: "sorted (map overallMatch (sort_js compare_asc xs))"
  by (simp add: sort_asc)

section \<open>The score of a job\<close>

lemma list_ex_lower:
  "list_ex (\<lambda>userSkill. toLowerCase userSkill = toLowerCase skill) userSkills
     = (toLowerCase skill \<in> toLowerCase ` set userSkills)"
  unfolding list_ex_iff image_iff by (rule iffI) (erule bexE, rule bexI, erule sym, assumption)+

lemma matchingSkills_of_filter:
  "matchingSkills_of userSkills j =
     filter (\<lambda>skill. toLowerCase skill \<in> toLowerCase ` set userSkills) (skills j)"
  by (simp add: matchingSkills_of_def list_ex_lower)

lemma dynamicMatch_bounds: "0 \<le> dynamicMatch userSkills j \<and> dynamicMatch userSkills j \<le> 100"
proof (cases "skills j = []")
  case True
  then show ?thesis by (simp add: dynamicMatch_def)
next
  case False
  then have n: "0 < length (skills j)" by simp
  have m: "length (matchingSkills_of userSkills j) \<le> length (skills j)"
    by (simp add: matchingSkills_of_def)
  show ?thesis
    using percent_bounds [OF n m] n by (simp add: dynamicMatch_def)
qed

lemma mapJob_skills: "skills (mapJob r) = parseSkillsText (qualification r)"
  by (simp add: mapJob_def Let_def)

lemma mapJob_base: "matchPercentage (mapJob r) = 60"
  by (simp add: mapJob_def Let_def)

lemma get_job_found:
  "get_job (Some i) (Some r) None rawSkills = Success (withMatchScore (getUserSkills rawSkills) (mapJob r))"
  by (simp add: get_job_def withMatchScore_def dynamicMatch_def matchingSkills_of_def Let_def)

lemma get_job_Success:
  "get_job idnum data error rawSkills = Success j \<Longrightarrow>
     \<exists>r. data = Some r \<and> j = withMatchScore (getUserSkills rawSkills) (mapJob r)"
  by (auto simp: get_job_def withMatchScore_def dynamicMatch_def matchingSkills_of_def Let_def
           split: option.splits)

lemma filter_search_subset: "set (filter_search p js) \<subseteq> set js"
  by (auto simp: filter_search_def Let_def split: option.splits)

lemma filter_type_subset: "set (filter_type p js) \<subseteq> set js"
  by (auto simp: filter_type_def Let_def split: option.splits)

lemma filter_skills_subset: "set (filter_skills p js) \<subseteq> set js"
  by (auto simp: filter_skills_def Let_def split: option.splits)

lemma jobsWithMatchScore_elem:
  assumes "j \<in> set (jobsWithMatchScore q rows userSkills)"
  shows "\<exists>r \<in> set rows. j = withMatchScore userSkills (mapJob r)"
proof -
  from assms obtain j0 where
    j0: "j0 \<in> set (filter_skills (qskills q) (filter_type (qtype q) (filter_search (search q) (map mapJob rows))))"
    and j: "j = withMatchScore userSkills j0"
    by (auto simp: jobsWithMatchScore_def)
  from j0 have "j0 \<in> set (map mapJob rows)"
    using filter_skills_subset filter_type_subset filter_search_subset by blast
  with j show ?thesis by auto
qed

lemma get_jobs_Success:
  "get_jobs q data error rawSkills = Success js \<Longrightarrow>
     js = sort_js compare_desc
            (jobsWithMatchScore q (case data of None \<Rightarrow> [] | Some rows \<Rightarrow> rows) (getUserSkills rawSkills))"
  by (auto simp: get_jobs_def split: option.splits)

lemma get_jobs_elem:
  assumes "get_jobs q data error rawSkills = Success js" "j \<in> set js"
  shows "\<exists>r. j = withMatchScore (getUserSkills rawSkills) (mapJob r)"
proof -
  have "set js = set (jobsWithMatchScore q (case data of None \<Rightarrow> [] | Some rows \<Rightarrow> rows) (getUserSkills rawSkills))"
    using get_jobs_Success [OF assms(1)] mset_desc by (metis set_mset_mset)
  with assms(2) jobsWithMatchScore_elem show ?thesis by blast
qed

lemma withMatchScore_score:
  "matchPercentage (withMatchScore userSkills (mapJob r)) = max (dynamicMatch userSkills (mapJob r)) 60"
  by (simp add: withMatchScore_def mapJob_base)

section \<open>The order of the listing\<close>

text \<open>
  Claim C5. The jobs of the listing come sorted by their score, highest first, and jobs
  of equal score keep the order they had before the sort, which is the order of the
  rows: for every score \<open>p\<close>, the jobs of score \<open>p\<close> are the same sequence before
  and after. The sort neither drops nor adds a job.
\<close>

theorem jobs_sorted_descending_stable:
  "\<exists>js. get_jobs q (Some rows) None rawSkills = Success js \<and>
        sorted_wrt (\<lambda>a b. matchPercentage b \<le> matchPercentage a) js \<and>
        mset js = mset (jobsWithMatchScore q rows (getUserSkills rawSkills)) \<and>
        (\<forall>p. filter (\<lambda>j. matchPercentage j = p) js =
             filter (\<lambda>j. matchPercentage j = p) (jobsWithMatchScore q rows (getUserSkills rawSkills)))"
  by (simp add: get_jobs_def sorted_desc stable_desc mset_desc)

theorem jobs_sorted_descending_stable_witness:
  "case get_jobs \<lparr>search = None, qtype = None, qskills = None\<rparr>
          (Some [\<lparr>row_id = 1, row_company = Some ''Acme'', job_title = Some ''Clerk'',
                   job_function = Some ''Office'', vacancies = Some ''2'',
                   qualification = Some ''B.Tech'', experience = Some ''Fresher''\<rparr>,
                 \<lparr>row_id = 2, row_company = Some ''Bolt'', job_title = Some ''Developer'',
                   job_function = Some ''Software'', vacancies = None,
                   qualification = Some ''Python, SQL'', experience = Some ''2-4 years''\<rparr>,
                 \<lparr>row_id = 3, row_company = None, job_title = None,
                   job_function = None, vacancies = None,
                   qualification = None, experience = None\<rparr>])
          None (Some (JArray [JString ''python'', JString ''sql''])) of
     Success js \<Rightarrow>
       map job_id js = [''2'', ''1'', ''3''] \<and> map matchPercentage js = [100, 60, 60] \<and>
       sorted_wrt (\<lambda>a b. matchPercentage b \<le> matchPercentage a) js
   | Failure st msg \<Rightarrow> False"
  (is "case get_jobs ?q (Some ?rows) None ?raw of Success js \<Rightarrow> ?A js \<and> ?B js \<and> ?C js | Failure st msg \<Rightarrow> False")
proof -
  from jobs_sorted_descending_stable [of ?q ?rows ?raw]
  obtain js where a: "get_jobs ?q (Some ?rows) None ?raw = Success js" and c: "?C js"
    by blast
  have "case get_jobs ?q (Some ?rows) None ?raw of
          Success js \<Rightarrow> ?A js \<and> ?B js | Failure st msg \<Rightarrow> False"
    by code_simp
  with a c show ?thesis by simp
qed

section \<open>The bounds of the score\<close>

lemma Success_caseD:
  "(case res of Success x \<Rightarrow> P x | Failure st msg \<Rightarrow> False) \<Longrightarrow> \<exists>x. res = Success x \<and> P x"
  by (cases res) auto

lemma score_at_least_base: "60 \<le> matchPercentage (withMatchScore userSkills (mapJob r))"
  by (simp add: withMatchScore_score)

lemma score_at_most_100: "matchPercentage (withMatchScore userSkills (mapJob r)) \<le> 100"
  using dynamicMatch_bounds [of userSkills "mapJob r"] by (simp add: withMatchScore_score)

text \<open>
  Claim C8. Every job that the listing or the single-job route returns carries a
  score of at least 60, whatever the skills of the user: the mapped job starts at 60
  and the route takes the maximum with the skill overlap.
\<close>

theorem matchPercentage_at_least_base:
  "(get_jobs q data error rawSkills = Success js \<longrightarrow> (\<forall>j \<in> set js. 60 \<le> matchPercentage j)) \<and>
   (get_job idnum row error' rawSkills' = Success j' \<longrightarrow> 60 \<le> matchPercentage j')"
proof (intro conjI impI ballI)
  fix j assume "get_jobs q data error rawSkills = Success js" "j \<in> set js"
  from get_jobs_elem [OF this] show "60 \<le> matchPercentage j"
    using score_at_least_base by auto
next
  assume "get_job idnum row error' rawSkills' = Success j'"
  from get_job_Success [OF this] show "60 \<le> matchPercentage j'"
    using score_at_least_base by auto
qed

theorem matchPercentage_at_least_base_witness:
  "(case get_jobs \<lparr>search = None, qtype = None, qskills = None\<rparr>
          (Some [\<lparr>row_id = 1, row_company = Some ''Acme'', job_title = Some ''Clerk'',
                   job_function = Some ''Office'', vacancies = Some ''2'',
                   qualification = Some ''B.Tech'', experience = Some ''Fresher''\<rparr>,
                 \<lparr>row_id = 2, row_company = Some ''Bolt'', job_title = Some ''Developer'',
                   job_function = Some ''Software'', vacancies = None,
                   qualification = Some ''Python, SQL'', experience = Some ''2-4 years''\<rparr>])
          None None of
      Success js \<Rightarrow> length js = 2 \<and> (\<forall>j \<in> set js. 60 \<le> matchPercentage j)
    | Failure st msg \<Rightarrow> False) \<and>
   (case get_job (Some 2)
          (Some \<lparr>row_id = 2, row_company = Some ''Bolt'', job_title = Some ''Developer'',
                   job_function = Some ''Software'', vacancies = None,
                   qualification = Some ''Python, SQL'', experience = Some ''2-4 years''\<rparr>)
          None (Some (JArray [])) of
      Success j \<Rightarrow> job_id j = ''2'' \<and> 60 \<le> matchPercentage j
    | Failure st msg \<Rightarrow> False)"
  (is "(case get_jobs ?q (Some ?rows) None ?raw' of Success js \<Rightarrow> ?A js \<and> ?B js | Failure st msg \<Rightarrow> False) \<and>
       (case get_job ?i (Some ?r) None ?raw of Success j \<Rightarrow> ?C j \<and> ?D j | Failure st msg \<Rightarrow> False)"
   is "(case ?L of Success js \<Rightarrow> _ | Failure st msg \<Rightarrow> False) \<and>
       (case ?G of Success j \<Rightarrow> _ | Failure st msg \<Rightarrow> False)")
proof -
  have L: "case ?L of Success js \<Rightarrow> ?A js | Failure st msg \<Rightarrow> False"
    by code_simp
  from Success_caseD [where res = ?L and P = ?A, OF L] obtain js where l: "?L = Success js" and a: "?A js"
    by (elim exE conjE)
  have G: "case ?G of Success j \<Rightarrow> ?C j | Failure st msg \<Rightarrow> False"
    by code_simp
  from Success_caseD [where res = ?G and P = ?C, OF G] obtain j where g: "?G = Success j" and c: "?C j"
    by (elim exE conjE)
  from matchPercentage_at_least_base [of ?q "Some ?rows" None None js "Some 2" "Some ?r" None ?raw j]
  have "?B js" "?D j" unfolding l g by simp_all
  with a c show ?thesis unfolding l g by simp
qed

section \<open>The fields that the score depends on\<close>

lemma withMatchScore_skills: "skills (withMatchScore userSkills j) = skills j"
  by (simp add: withMatchScore_def)

lemma dynamicMatch_skills_cong:
  "skills j1 = skills j2 \<Longrightarrow> dynamicMatch userSkills j1 = dynamicMatch userSkills j2"
  by (simp add: dynamicMatch_def matchingSkills_of_def)

lemma dynamicMatch_formula:
  "dynamicMatch userSkills j =
     (if skills j = [] then 0
      else Math_round
             (number_mul
                (number_div
                   (of_nat (length (filter (\<lambda>t. toLowerCase t \<in> toLowerCase ` set userSkills) (skills j))))
                   (of_nat (length (skills j)))) 100))"
  by (simp add: dynamicMatch_def matchingSkills_of_filter)

lemma reported_get_job:
  "reported (get_job (Some i) (Some r) None rawSkills) =
     Some (max (dynamicMatch (getUserSkills rawSkills) (mapJob r)) 60)"
  by (simp add: get_job_found reported_def withMatchScore_score)

lemma spec_percent_without_skill:
  assumes "roleScore \<le> 1" "experienceScore \<le> 1"
  shows "spec_finalScorePercent 0 roleScore experienceScore \<le> 50"
proof -
  have "spec_final 0 roleScore experienceScore * 100 * 100 + 1 / 2 < of_int 5001"
    using assms by (simp add: spec_final_def)
  then have "\<lfloor>spec_final 0 roleScore experienceScore * 100 * 100 + 1 / 2\<rfloor> < 5001"
    by (simp only: floor_less_iff)
  then have "Math_round (spec_final 0 roleScore experienceScore * 100 * 100) \<le> 5000"
    by (simp add: Math_round_def)
  then have "(of_int (Math_round (spec_final 0 roleScore experienceScore * 100 * 100)) :: rat) \<le> of_int 5000"
    by (simp only: of_int_le_iff)
  then show ?thesis
    by (simp add: spec_finalScorePercent_def round2_def)
qed

text \<open>
  Claim C1, as stated, fails: two postings that differ in their qualification alone
  get different scores from the single-job route, because the route takes the skills
  of a job from its qualification.
\<close>

theorem qualification_noninterference_counterexample:
  "reported (get_job (Some 1)
      (Some \<lparr>row_id = 1, row_company = Some ''Acme'', job_title = Some ''Developer'',
              job_function = Some ''Software'', vacancies = Some ''2'',
              qualification = Some ''Python'', experience = Some ''2-4 years''\<rparr>)
      None (Some (JArray [JString ''Python'']))) = Some 100 \<and>
   reported (get_job (Some 1)
      (Some \<lparr>row_id = 1, row_company = Some ''Acme'', job_title = Some ''Developer'',
              job_function = Some ''Software'', vacancies = Some ''2'',
              qualification = Some ''B.Tech'', experience = Some ''2-4 years''\<rparr>)
      None (Some (JArray [JString ''Python'']))) = Some 60"
  by code_simp

text \<open>
  Claim C1, amended. The qualification is the one field of a posting that the score
  depends on: two postings with the same qualification get the same score for every
  candidate skill set, whatever their id, company, title, job function, vacancies and
  experience; this holds for the single-job route and for the scoring of the listing.
\<close>

theorem score_determined_by_qualification:
  assumes "qualification r1 = qualification r2"
  shows "reported (get_job (Some i1) (Some r1) None rawSkills) =
           reported (get_job (Some i2) (Some r2) None rawSkills) \<and>
         matchPercentage (withMatchScore userSkills (mapJob r1)) =
           matchPercentage (withMatchScore userSkills (mapJob r2))"
proof -
  have "skills (mapJob r1) = skills (mapJob r2)"
    using assms by (simp add: mapJob_skills)
  then have "dynamicMatch us (mapJob r1) = dynamicMatch us (mapJob r2)" for us
    by (rule dynamicMatch_skills_cong)
  then show ?thesis
    by (simp add: reported_get_job withMatchScore_score)
qed

theorem score_determined_by_qualification_witness:
  "qualification \<lparr>row_id = 1, row_company = Some ''Acme'', job_title = Some ''Developer'',
              job_function = Some ''Software'', vacancies = Some ''2'',
              qualification = Some ''Python, SQL'', experience = Some ''2-4 years''\<rparr> =
   qualification \<lparr>row_id = 7, row_company = None, job_title = Some ''Clerk'',
              job_function = Some ''Python'', vacancies = None,
              qualification = Some ''Python, SQL'', experience = Some ''Fresher''\<rparr> \<and>
   reported (get_job (Some 1)
      (Some \<lparr>row_id = 1, row_company = Some ''Acme'', job_title = Some ''Developer'',
              job_function = Some ''Software'', vacancies = Some ''2'',
              qualification = Some ''Python, SQL'', experience = Some ''2-4 years''\<rparr>)
      None (Some (JArray [JString ''sql'', JString ''python'']))) =
   reported (get_job (Some 7)
      (Some \<lparr>row_id = 7, row_company = None, job_title = Some ''Clerk'',
              job_function = Some ''Python'', vacancies = None,
              qualification = Some ''Python, SQL'', experience = Some ''Fresher''\<rparr>)
      None (Some (JArray [JString ''sql'', JString ''python''])))"
  (is "qualification ?r1 = qualification ?r2 \<and> reported (get_job ?i1 _ None ?raw) = _")
proof -
  have q: "qualification ?r1 = qualification ?r2" by simp
  from score_determined_by_qualification [OF q, of 1 ?raw 7] q show ?thesis
    by blast
qed

section \<open>The formula of the score\<close>

text \<open>
  Claim C2, as stated, fails. For a posting none of whose skills the candidate has,
  the skill score is 0, so the weighted formula gives at most 50 percent, whatever the
  role and experience scores are (\<open>spec_percent_without_skill\<close>; 50 is reached when
  both are 1); the route reports 60.
\<close>

theorem weighted_final_score_counterexample:
  "reported (get_job (Some 1)
      (Some \<lparr>row_id = 1, row_company = Some ''Acme'', job_title = Some ''Developer'',
              job_function = Some ''Python, SQL'', vacancies = Some ''2'',
              qualification = Some ''B.Tech'', experience = Some ''2-4 years''\<rparr>)
      None (Some (JArray [JString ''Cobol'']))) = Some 60 \<and>
   spec_skillScore token_in_entry [''Cobol''] (parseSkillsText (Some ''B.Tech'')) = 0 \<and>
   spec_skillScore entry_in_token [''Cobol''] (parseSkillsText (Some ''B.Tech'')) = 0 \<and>
   spec_skillScore token_in_entry [''Cobol''] (spec_tokenizeCsv ''Python, SQL'') = 0 \<and>
   spec_skillScore entry_in_token [''Cobol''] (spec_tokenizeCsv ''Python, SQL'') = 0 \<and>
   spec_finalScorePercent 0 1 1 = 50"
  by code_simp

text \<open>
  Claim C2, amended. The score reported for a job is the larger of 60 and the rounded
  percentage of the job's skills that equal a skill of the candidate, letter case
  ignored (0 for a job without skills); the skills of the job are the tokens of its
  qualification. No role score and no experience score enters. The percentage is
  \<open>Math.round((matched / total) * 100)\<close> in double arithmetic; for a job of up to
  \<open>2^40\<close> skills (an array is shorter) the reported score is the larger of 60 and the
  exact percentage rounded to the nearest integer, halves upwards.
\<close>

theorem reported_score_is_overlap_or_base:
  "reported (get_job (Some i) (Some r) None rawSkills) =
     Some (let tokens = parseSkillsText (qualification r);
               matched = filter (\<lambda>t. toLowerCase t \<in> toLowerCase ` set (getUserSkills rawSkills)) tokens
           in max (if tokens = [] then 0
                   else Math_round (number_mul (number_div (of_nat (length matched)) (of_nat (length tokens))) 100)) 60) \<and>
   (length (parseSkillsText (qualification r)) \<le> 2 ^ 40 \<longrightarrow>
    reported (get_job (Some i) (Some r) None rawSkills) =
      Some (let tokens = parseSkillsText (qualification r);
                matched = filter (\<lambda>t. toLowerCase t \<in> toLowerCase ` set (getUserSkills rawSkills)) tokens
            in if tokens = [] then 60
               else max ((200 * int (length matched) + int (length tokens)) div (2 * int (length tokens))) 60)) \<and>
   (get_jobs q data error rawSkills = Success js \<longrightarrow>
      (\<forall>j \<in> set js.
         (\<exists>r' \<in> set (case data of None \<Rightarrow> [] | Some rows \<Rightarrow> rows).
            skills j = parseSkillsText (qualification r')) \<and>
         matchPercentage j =
           (let matched = filter (\<lambda>t. toLowerCase t \<in> toLowerCase ` set (getUserSkills rawSkills)) (skills j)
            in max (if skills j = [] then 0
                    else Math_round (number_mul (number_div (of_nat (length matched)) (of_nat (length (skills j)))) 100)) 60)))"
proof (intro conjI impI ballI)
  show "reported (get_job (Some i) (Some r) None rawSkills) =
     Some (let tokens = parseSkillsText (qualification r);
               matched = filter (\<lambda>t. toLowerCase t \<in> toLowerCase ` set (getUserSkills rawSkills)) tokens
           in max (if tokens = [] then 0
                   else Math_round (number_mul (number_div (of_nat (length matched)) (of_nat (length tokens))) 100)) 60)"
    by (simp add: reported_get_job dynamicMatch_formula mapJob_skills Let_def)
next
  let ?tokens = "parseSkillsText (qualification r)"
  let ?matched = "filter (\<lambda>t. toLowerCase t \<in> toLowerCase ` set (getUserSkills rawSkills)) ?tokens"
  assume big: "length ?tokens \<le> 2 ^ 40"
  have "max (dynamicMatch (getUserSkills rawSkills) (mapJob r)) 60 =
      (if ?tokens = [] then 60
       else max ((200 * int (length ?matched) + int (length ?tokens)) div (2 * int (length ?tokens))) 60)"
  proof (cases "?tokens = []")
    case True
    then show ?thesis by (simp add: dynamicMatch_formula mapJob_skills)
  next
    case False
    then have n: "0 < length ?tokens" by simp
    have m: "length ?matched \<le> length ?tokens" by simp
    from percent_exact_above_base [OF n m big] False show ?thesis
      by (simp add: dynamicMatch_formula mapJob_skills)
  qed
  then show "reported (get_job (Some i) (Some r) None rawSkills) =
      Some (let tokens = parseSkillsText (qualification r);
                matched = filter (\<lambda>t. toLowerCase t \<in> toLowerCase ` set (getUserSkills rawSkills)) tokens
            in if tokens = [] then 60
               else max ((200 * int (length matched) + int (length tokens)) div (2 * int (length tokens))) 60)"
    by (simp only: reported_get_job Let_def)
next
  fix j assume s: "get_jobs q data error rawSkills = Success js" and j: "j \<in> set js"
  have "set js = set (jobsWithMatchScore q (case data of None \<Rightarrow> [] | Some rows \<Rightarrow> rows) (getUserSkills rawSkills))"
    using get_jobs_Success [OF s] mset_desc by (metis set_mset_mset)
  with j jobsWithMatchScore_elem
  obtain r' where r': "r' \<in> set (case data of None \<Rightarrow> [] | Some rows \<Rightarrow> rows)"
    and e: "j = withMatchScore (getUserSkills rawSkills) (mapJob r')"
    by blast
  from r' e show "\<exists>r' \<in> set (case data of None \<Rightarrow> [] | Some rows \<Rightarrow> rows).
            skills j = parseSkillsText (qualification r')"
    by (auto simp: withMatchScore_skills mapJob_skills)
  have d: "dynamicMatch (getUserSkills rawSkills) (mapJob r') = dynamicMatch (getUserSkills rawSkills) j"
    by (rule dynamicMatch_skills_cong) (simp add: e withMatchScore_skills)
  show "matchPercentage j =
           (let matched = filter (\<lambda>t. toLowerCase t \<in> toLowerCase ` set (getUserSkills rawSkills)) (skills j)
            in max (if skills j = [] then 0
                    else Math_round (number_mul (number_div (of_nat (length matched)) (of_nat (length (skills j)))) 100)) 60)"
    unfolding Let_def dynamicMatch_formula [symmetric] d [symmetric]
    by (simp add: e withMatchScore_score)
qed

theorem reported_score_is_overlap_or_base_witness:
  "length (parseSkillsText (qualification
      \<lparr>row_id = 2, row_company = Some ''Bolt'', job_title = Some ''Developer'',
       job_function = Some ''Software'', vacancies = None,
       qualification = Some ''Python, SQL, Go'', experience = Some ''2-4 years''\<rparr>)) \<le> 2 ^ 40 \<and>
   reported (get_job (Some 2)
      (Some \<lparr>row_id = 2, row_company = Some ''Bolt'', job_title = Some ''Developer'',
              job_function = Some ''Software'', vacancies = None,
              qualification = Some ''Python, SQL, Go'', experience = Some ''2-4 years''\<rparr>)
      None (Some (JArray [JString ''go'', JString ''SQL'']))) = Some 67 \<and>
   (case get_jobs \<lparr>search = None, qtype = None, qskills = None\<rparr>
          (Some [\<lparr>row_id = 1, row_company = Some ''Acme'', job_title = Some ''Clerk'',
                   job_function = Some ''Office'', vacancies = Some ''2'',
                   qualification = Some ''B.Tech'', experience = Some ''Fresher''\<rparr>,
                 \<lparr>row_id = 2, row_company = Some ''Bolt'', job_title = Some ''Developer'',
                   job_function = Some ''Software'', vacancies = None,
                   qualification = Some ''Python, SQL, Go'', experience = Some ''2-4 years''\<rparr>])
          None (Some (JArray [JString ''go'', JString ''SQL''])) of
      Success js \<Rightarrow>
        map matchPercentage js = [67, 60] \<and>
        (\<forall>j \<in> set js.
           matchPercentage j =
             (let matched = filter (\<lambda>t. toLowerCase t \<in> toLowerCase ` set [''go'', ''SQL'']) (skills j)
              in max (if skills j = [] then 0
                      else Math_round (number_mul (number_div (of_nat (length matched)) (of_nat (length (skills j)))) 100)) 60))
    | Failure st msg \<Rightarrow> False)"
  (is "length (parseSkillsText (qualification ?r)) \<le> 2 ^ 40 \<and>
       reported (get_job ?i (Some _) None ?raw) = Some 67 \<and>
       (case get_jobs ?q (Some ?rows) None _ of Success js \<Rightarrow> ?A js \<and> ?B js | Failure st msg \<Rightarrow> False)"
   is "_ \<and> _ \<and> (case ?L of Success js \<Rightarrow> _ | Failure st msg \<Rightarrow> False)")
proof -
  have L: "case ?L of Success js \<Rightarrow> ?A js | Failure st msg \<Rightarrow> False"
    by code_simp
  from Success_caseD [where res = ?L and P = ?A, OF L] obtain js where l: "?L = Success js" and a: "?A js"
    by (elim exE conjE)
  have u: "getUserSkills ?raw = [''go'', ''SQL'']"
    by (simp add: getUserSkills_def)
  have "length (parseSkillsText (qualification ?r)) = 3"
    by code_simp
  then have len: "length (parseSkillsText (qualification ?r)) \<le> 2 ^ 40"
    by (simp only:) simp
  note t = reported_score_is_overlap_or_base [of 2 ?r ?raw ?q "Some ?rows" None js]
  have v: "(let tokens = parseSkillsText (qualification ?r);
                matched = filter (\<lambda>t. toLowerCase t \<in> toLowerCase ` set (getUserSkills ?raw)) tokens
            in if tokens = [] then 60
               else max ((200 * int (length matched) + int (length tokens)) div (2 * int (length tokens))) 60) = 67"
    by code_simp
  from t [THEN conjunct2, THEN conjunct1, THEN mp, OF len]
  have "reported (get_job ?i (Some ?r) None ?raw) = Some 67"
    unfolding v .
  moreover from t l have "?B js"
    unfolding u by simp
  ultimately show ?thesis
    using a len unfolding l by simp
qed

section \<open>The rounding of the score\<close>

lemma nearest_integer: "\<bar>of_int \<lfloor>x + 1 / 2\<rfloor> - x\<bar> \<le> 1 / (2::rat)"
proof -
  have "of_int \<lfloor>x + 1 / 2\<rfloor> \<le> x + 1 / 2" "x + 1 / 2 < of_int \<lfloor>x + 1 / 2\<rfloor> + 1"
    by linarith+
  then show ?thesis unfolding abs_le_iff by linarith
qed

text \<open>
  A score above the base is the exact percentage of matched skills, rounded to the
  nearest integer.
\<close>

lemma score_above_base_nearest:
  assumes j: "j = withMatchScore userSkills (mapJob r)"
    and above: "60 < matchPercentage j"
    and big: "length (skills j) \<le> 2 ^ 40"
  shows "\<bar>of_int (matchPercentage j) -
           100 * of_nat (length (matchingSkills_of userSkills j)) / of_nat (length (skills j))\<bar>
         \<le> 1 / (2::rat)"
proof -
  let ?m = "length (matchingSkills_of userSkills j)"
  let ?n = "length (skills j)"
  have sk: "skills j = skills (mapJob r)" by (simp add: j withMatchScore_skills)
  have ms: "matchingSkills_of userSkills (mapJob r) = matchingSkills_of userSkills j"
    using sk by (simp add: matchingSkills_of_def)
  have mp: "matchPercentage j = max (dynamicMatch userSkills (mapJob r)) 60"
    by (simp add: j withMatchScore_score)
  have n: "0 < ?n"
  proof (rule ccontr)
    assume "\<not> 0 < ?n"
    then have "dynamicMatch userSkills (mapJob r) = 0" by (simp add: dynamicMatch_def sk)
    with mp above show False by simp
  qed
  have m: "?m \<le> ?n" by (simp add: matchingSkills_of_def)
  have d: "dynamicMatch userSkills (mapJob r) =
      Math_round (number_mul (number_div (of_nat ?m) (of_nat ?n)) 100)"
    using n by (simp add: dynamicMatch_def ms sk [symmetric])
  from percent_exact_above_base [OF n m big]
  have "matchPercentage j = max ((200 * int ?m + int ?n) div (2 * int ?n)) 60"
    by (simp only: mp d)
  with above have e: "matchPercentage j = (200 * int ?m + int ?n) div (2 * int ?n)"
    by simp
  have q: "(of_int (200 * int ?m + int ?n) :: rat) / of_int (2 * int ?n)
      = 100 * of_nat ?m / of_nat ?n + 1 / 2"
    using n by (simp add: field_simps)
  have "\<lfloor>(of_int (200 * int ?m + int ?n) :: rat) / of_int (2 * int ?n)\<rfloor>
      = (200 * int ?m + int ?n) div (2 * int ?n)"
    by (rule floor_divide_of_int_eq)
  then have "(200 * int ?m + int ?n) div (2 * int ?n) = \<lfloor>100 * of_nat ?m / of_nat ?n + 1 / (2::rat)\<rfloor>"
    unfolding q by (rule sym)
  with e have "matchPercentage j = \<lfloor>100 * of_nat ?m / of_nat ?n + 1 / (2::rat)\<rfloor>"
    by simp
  then show ?thesis
    using nearest_integer [of "100 * of_nat ?m / of_nat ?n"] by simp
qed

text \<open>
  Claim C6, as stated, fails: the score is rounded to an integer, not to two decimals.
  With two of three skills matched the route reports 67; the percentage rounded to two
  decimals is 66.67, from the exact quotient and from the doubles alike.
\<close>

theorem two_decimals_counterexample:
  "reported (get_job (Some 2)
      (Some \<lparr>row_id = 2, row_company = Some ''Bolt'', job_title = Some ''Developer'',
              job_function = Some ''Software'', vacancies = None,
              qualification = Some ''Python, SQL, Go'', experience = Some ''2-4 years''\<rparr>)
      None (Some (JArray [JString ''go'', JString ''SQL'']))) = Some 67 \<and>
   round2 (100 * 2 / 3) = 6667 / 100 \<and>
   round2 (number_mul (number_div 2 3) 100) = 6667 / 100"
  by code_simp

text \<open>
  Claim C6, amended. The score of every returned job lies between 0 and 100 and is a
  whole number: the route rounds the percentage of matched skills to the nearest
  integer, so a score above the base of 60 is at most one half away from the exact
  percentage (for a job of up to \<open>2^40\<close> skills; an array is shorter).
\<close>

theorem score_in_range_whole_number:
  "(get_jobs q data error rawSkills = Success js \<longrightarrow>
      (\<forall>j \<in> set js.
         0 \<le> matchPercentage j \<and> matchPercentage j \<le> 100 \<and>
         (60 < matchPercentage j \<and> length (skills j) \<le> 2 ^ 40 \<longrightarrow>
            \<bar>of_int (matchPercentage j) -
               100 * of_nat (length (matchingSkills_of (getUserSkills rawSkills) j)) /
                 of_nat (length (skills j))\<bar> \<le> 1 / (2::rat)))) \<and>
   (get_job idnum row error' rawSkills' = Success j' \<longrightarrow>
      0 \<le> matchPercentage j' \<and> matchPercentage j' \<le> 100 \<and>
      (60 < matchPercentage j' \<and> length (skills j') \<le> 2 ^ 40 \<longrightarrow>
         \<bar>of_int (matchPercentage j') -
            100 * of_nat (length (matchingSkills_of (getUserSkills rawSkills') j')) /
              of_nat (length (skills j'))\<bar> \<le> 1 / (2::rat)))"
proof -
  have both: "0 \<le> matchPercentage j \<and> matchPercentage j \<le> 100 \<and>
         (60 < matchPercentage j \<and> length (skills j) \<le> 2 ^ 40 \<longrightarrow>
            \<bar>of_int (matchPercentage j) -
               100 * of_nat (length (matchingSkills_of us j)) / of_nat (length (skills j))\<bar>
            \<le> 1 / (2::rat))"
    if "j = withMatchScore us (mapJob r)" for j us r
    using that score_at_least_base [of us r] score_at_most_100 [of us r]
      score_above_base_nearest [OF that] by simp
  show ?thesis
  proof (rule conjI; rule impI; (rule ballI)?)
    fix j assume "get_jobs q data error rawSkills = Success js" "j \<in> set js"
    from get_jobs_elem [OF this] obtain r where "j = withMatchScore (getUserSkills rawSkills) (mapJob r)" ..
    then show "0 \<le> matchPercentage j \<and> matchPercentage j \<le> 100 \<and>
         (60 < matchPercentage j \<and> length (skills j) \<le> 2 ^ 40 \<longrightarrow>
            \<bar>of_int (matchPercentage j) -
               100 * of_nat (length (matchingSkills_of (getUserSkills rawSkills) j)) /
                 of_nat (length (skills j))\<bar> \<le> 1 / (2::rat))"
      by (rule both)
  next
    assume "get_job idnum row error' rawSkills' = Success j'"
    from get_job_Success [OF this] obtain r where "j' = withMatchScore (getUserSkills rawSkills') (mapJob r)"
      by blast
    then show "0 \<le> matchPercentage j' \<and> matchPercentage j' \<le> 100 \<and>
      (60 < matchPercentage j' \<and> length (skills j') \<le> 2 ^ 40 \<longrightarrow>
         \<bar>of_int (matchPercentage j') -
            100 * of_nat (length (matchingSkills_of (getUserSkills rawSkills') j')) /
              of_nat (length (skills j'))\<bar> \<le> 1 / (2::rat))"
      by (rule both)
  qed
qed


theorem score_in_range_whole_number_witness:
  "(case get_jobs \<lparr>search = Some ''dev'', qtype = None, qskills = None\<rparr>
          (Some [\<lparr>row_id = 1, row_company = Some ''Acme'', job_title = Some ''Clerk'',
                   job_function = Some ''Office'', vacancies = Some ''2'',
                   qualification = Some ''B.Tech'', experience = Some ''Fresher''\<rparr>,
                 \<lparr>row_id = 2, row_company = Some ''Bolt'', job_title = Some ''Developer'',
                   job_function = Some ''Software'', vacancies = None,
                   qualification = Some ''Python, SQL, Go'', experience = Some ''2-4 years''\<rparr>])
          None (Some (JArray [JString ''go'', JString ''SQL''])) of
      Success js \<Rightarrow>
        (map matchPercentage js = [67] \<and> map (\<lambda>j. length (skills j)) js = [3]) \<and>
        (\<forall>j \<in> set js.
           0 \<le> matchPercentage j \<and> matchPercentage j \<le> 100 \<and>
           \<bar>of_int (matchPercentage j) -
              100 * of_nat (length (matchingSkills_of [''go'', ''SQL''] j)) /
                of_nat (length (skills j))\<bar> \<le> 1 / (2::rat))
    | Failure st msg \<Rightarrow> False) \<and>
   (case get_job (Some 2)
          (Some \<lparr>row_id = 2, row_company = Some ''Bolt'', job_title = Some ''Developer'',
                   job_function = Some ''Software'', vacancies = None,
                   qualification = Some ''Python, SQL, Go'', experience = Some ''2-4 years''\<rparr>)
          None (Some (JArray [JString ''go'', JString ''SQL''])) of
      Success j \<Rightarrow>
        (matchPercentage j = 67 \<and> length (skills j) = 3 \<and>
         length (matchingSkills_of [''go'', ''SQL''] j) = 2) \<and>
        (0 \<le> matchPercentage j \<and> matchPercentage j \<le> 100 \<and>
         \<bar>of_int (matchPercentage j) -
            100 * of_nat (length (matchingSkills_of [''go'', ''SQL''] j)) /
              of_nat (length (skills j))\<bar> \<le> 1 / (2::rat))
    | Failure st msg \<Rightarrow> False)"
  (is "(case get_jobs ?q (Some ?rows) None ?raw of Success js \<Rightarrow> ?A js \<and> ?B js | Failure st msg \<Rightarrow> False) \<and>
       (case get_job ?i (Some ?r) None _ of Success j \<Rightarrow> ?C j \<and> ?D j | Failure st msg \<Rightarrow> False)"
   is "(case ?L of Success js \<Rightarrow> _ | Failure st msg \<Rightarrow> False) \<and>
       (case ?G of Success j \<Rightarrow> _ | Failure st msg \<Rightarrow> False)")
proof -
  have L: "case ?L of Success js \<Rightarrow> ?A js | Failure st msg \<Rightarrow> False"
    by code_simp
  from Success_caseD [where res = ?L and P = ?A, OF L] obtain js where l: "?L = Success js" and a: "?A js"
    by (elim exE conjE) (rule that, assumption, rule conjI)
  have G: "case ?G of Success j \<Rightarrow> ?C j | Failure st msg \<Rightarrow> False"
    by code_simp
  from Success_caseD [where res = ?G and P = ?C, OF G] obtain j where g: "?G = Success j" and c: "?C j"
    by (elim exE) (rule that, erule conjunct1, erule conjunct2)
  have u: "getUserSkills ?raw = [''go'', ''SQL'']"
    by (simp add: getUserSkills_def)
  note t = score_in_range_whole_number [of ?q "Some ?rows" None ?raw js "Some 2" "Some ?r" None ?raw j]
  from a have each: "matchPercentage x = 67 \<and> length (skills x) = 3" if "x \<in> set js" for x
    using that by (cases js) auto
  have "?B js"
  proof (rule ballI)
    fix x assume x: "x \<in> set js"
    from each [OF x] have h: "60 < matchPercentage x \<and> length (skills x) \<le> 2 ^ 40" by simp
    from t [THEN conjunct1, THEN mp, OF l, THEN bspec, OF x] h
    show "0 \<le> matchPercentage x \<and> matchPercentage x \<le> 100 \<and>
           \<bar>of_int (matchPercentage x) -
              100 * of_nat (length (matchingSkills_of [''go'', ''SQL''] x)) /
                of_nat (length (skills x))\<bar> \<le> 1 / (2::rat)"
      unfolding u by blast
  qed
  moreover have "?D j"
  proof -
    from c have h: "60 < matchPercentage j \<and> length (skills j) \<le> 2 ^ 40" by simp
    from t [THEN conjunct2, THEN mp, OF g] h show ?thesis
      unfolding u by blast
  qed
  ultimately show ?thesis
    using a c unfolding l g by simp
qed

section \<open>The skill score\<close>

text \<open>
  Claim C3, as stated, fails: the route matches a token by equality only. The
  candidate has JavaScript and SQL, the job asks for Java and PostgreSQL: no token
  equals a skill, the score is 0; by substring comparison one token of two matches in
  either direction of the comparison (Java within JavaScript, SQL within PostgreSQL).
\<close>

theorem substring_match_counterexample:
  "dynamicMatch [''JavaScript'', ''SQL'']
     (mapJob \<lparr>row_id = 1, row_company = Some ''Acme'', job_title = Some ''Developer'',
              job_function = Some ''Software'', vacancies = Some ''2'',
              qualification = Some ''Java, PostgreSQL'', experience = Some ''2-4 years''\<rparr>) = 0 \<and>
   spec_skillScore token_in_entry [''JavaScript'', ''SQL''] [''Java'', ''PostgreSQL''] = 1 / 2 \<and>
   spec_skillScore entry_in_token [''JavaScript'', ''SQL''] [''Java'', ''PostgreSQL''] = 1 / 2"
  by code_simp

text \<open>
  Claim C3, amended. For a job with at least one skill token, a token counts as
  matched exactly when it equals an entry of the candidate's skill set, letter case
  ignored (a substring is no match); the ratio of matched tokens to all tokens, a
  double, lies in [0,1], and the skill score is that ratio in percent, rounded to an
  integer, in [0,100].
\<close>

theorem skill_score_is_exact_match_ratio:
  assumes "skills j \<noteq> []"
  shows "matchingSkills_of userSkills j =
           filter (\<lambda>t. \<exists>u \<in> set userSkills. toLowerCase u = toLowerCase t) (skills j) \<and>
         (let ratio = number_div (of_nat (length (matchingSkills_of userSkills j)))
                        (of_nat (length (skills j)))
          in 0 \<le> ratio \<and> ratio \<le> 1 \<and>
             dynamicMatch userSkills j = Math_round (number_mul ratio 100) \<and>
             0 \<le> dynamicMatch userSkills j \<and> dynamicMatch userSkills j \<le> 100)"
proof -
  have n: "0 < length (skills j)" using assms by simp
  have m: "length (matchingSkills_of userSkills j) \<le> length (skills j)"
    by (simp add: matchingSkills_of_def)
  note r = number_div_bounds [OF n m]
  have f: "matchingSkills_of userSkills j =
           filter (\<lambda>t. \<exists>u \<in> set userSkills. toLowerCase u = toLowerCase t) (skills j)"
    by (simp add: matchingSkills_of_def list_ex_iff)
  have d: "dynamicMatch userSkills j =
      Math_round (number_mul (number_div (of_nat (length (matchingSkills_of userSkills j)))
                                (of_nat (length (skills j)))) 100)"
    using n by (simp add: dynamicMatch_def)
  show ?thesis
    unfolding Let_def using f r d dynamicMatch_bounds [of userSkills j] by blast
qed

theorem skill_score_is_exact_match_ratio_witness:
  "skills (mapJob \<lparr>row_id = 1, row_company = Some ''Acme'', job_title = Some ''Developer'',
              job_function = Some ''Software'', vacancies = Some ''2'',
              qualification = Some ''Python, Django, SQL, REST API'',
              experience = Some ''2-4 years''\<rparr>) \<noteq> [] \<and>
   matchingSkills_of [''python'', ''SQL'', ''django'']
     (mapJob \<lparr>row_id = 1, row_company = Some ''Acme'', job_title = Some ''Developer'',
              job_function = Some ''Software'', vacancies = Some ''2'',
              qualification = Some ''Python, Django, SQL, REST API'',
              experience = Some ''2-4 years''\<rparr>) = [''Python'', ''Django'', ''SQL''] \<and>
   dynamicMatch [''python'', ''SQL'', ''django'']
     (mapJob \<lparr>row_id = 1, row_company = Some ''Acme'', job_title = Some ''Developer'',
              job_function = Some ''Software'', vacancies = Some ''2'',
              qualification = Some ''Python, Django, SQL, REST API'',
              experience = Some ''2-4 years''\<rparr>) = 75 \<and>
   number_div 3 4 = 3 / 4"
  (is "skills ?j \<noteq> [] \<and> matchingSkills_of ?us _ = ?ms \<and> _ \<and> _")
proof -
  have h: "skills ?j \<noteq> []" by code_simp
  have ms: "matchingSkills_of ?us ?j = ?ms" by code_simp
  have len: "length (skills ?j) = 4" by code_simp
  have v: "Math_round (number_mul (number_div (of_nat (length ?ms)) (of_nat 4)) 100) = 75"
    by code_simp
  from skill_score_is_exact_match_ratio [OF h, of ?us]
  have "dynamicMatch ?us ?j = 75"
    unfolding Let_def ms len v by (elim conjE)
  moreover have "number_div 3 4 = 3 / 4" by code_simp
  ultimately show ?thesis using h ms by blast
qed

lemma in_filter_search:
  "j \<in> set (filter_search p js) \<longleftrightarrow> j \<in> set js \<and> j \<in> set (filter_search p [j])"
  by (auto simp: filter_search_def Let_def split: option.splits)

lemma in_filter_type:
  "j \<in> set (filter_type p js) \<longleftrightarrow> j \<in> set js \<and> j \<in> set (filter_type p [j])"
  by (auto simp: filter_type_def Let_def split: option.splits)

lemma in_filter_skills_no_skills:
  assumes "skills j = []"
  shows "j \<in> set (filter_skills p js) \<longleftrightarrow> j \<in> set js \<and> used p = None"
proof (cases "used p")
  case None
  then show ?thesis by (simp add: filter_skills_def)
next
  case (Some s)
  have "\<not> list_ex (\<lambda>skill. False) xs" for xs :: "string list"
    by (induction xs) simp_all
  with Some assms show ?thesis
    by (simp add: filter_skills_def Let_def)
qed

lemma withMatchScore_no_skills:
  assumes "skills j = []" "matchPercentage j = 60"
  shows "withMatchScore userSkills j = j"
  using assms by (simp add: withMatchScore_def dynamicMatch_def)

text \<open>
  Claim C4, as stated, fails: the tokens of a job are not taken from its job function.
  A posting with an empty job function and a qualification that the candidate has gets
  the skill score 100.
\<close>

theorem empty_jobFunction_counterexample:
  "dynamicMatch (getUserSkills (Some (JArray [JString ''python''])))
     (mapJob \<lparr>row_id = 1, row_company = Some ''Acme'', job_title = Some ''Developer'',
              job_function = Some [], vacancies = Some ''2'',
              qualification = Some ''Python'', experience = Some ''2-4 years''\<rparr>) = 100 \<and>
   spec_tokenizeCsv [] = []"
  by code_simp

text \<open>
  Claim C4, amended. A posting with zero required-skill tokens, which here means that
  no token comes out of its qualification (null, empty, or separators and blanks only,
  whatever its job function), gets the skill score 0 for every candidate skill set,
  and this is a normal result of scoring: scoring leaves the mapped job as it is, with
  the base score 60, and the single-job route answers it with status 200. The listing,
  over any table that holds the posting and for any query, returns the job exactly
  when the query has no skills filter and the job passes the search and type filters;
  a skills filter drops every job without skills.
\<close>

theorem no_tokens_skill_score_zero:
  assumes "parseSkillsText (qualification r) = []"
  shows "dynamicMatch userSkills (mapJob r) = 0 \<and>
         withMatchScore userSkills (mapJob r) = mapJob r \<and>
         get_job (Some i) (Some r) None rawSkills = Success (mapJob r) \<and>
         get_jobs \<lparr>search = None, qtype = None, qskills = None\<rparr> (Some [r]) None rawSkills
           = Success [mapJob r] \<and>
         (r \<in> set rows \<longrightarrow>
            (\<exists>js. get_jobs q (Some rows) None rawSkills = Success js \<and>
               (mapJob r \<in> set js \<longleftrightarrow>
                  used (qskills q) = None \<and>
                  mapJob r \<in> set (filter_type (qtype q) (filter_search (search q) [mapJob r])))))"
proof -
  have s: "skills (mapJob r) = []"
    using assms by (simp add: mapJob_skills)
  then have d: "dynamicMatch us (mapJob r) = 0" for us
    by (simp add: dynamicMatch_def)
  have w: "withMatchScore us (mapJob r) = mapJob r" for us
    using s mapJob_base by (rule withMatchScore_no_skills)
  have one: "get_jobs \<lparr>search = None, qtype = None, qskills = None\<rparr> (Some [r]) None rawSkills
           = Success [mapJob r]"
    by (simp add: w get_jobs_def jobsWithMatchScore_def
        filter_search_def filter_type_def filter_skills_def used_def)
  have listing: "\<exists>js. get_jobs q (Some rows) None rawSkills = Success js \<and>
               (mapJob r \<in> set js \<longleftrightarrow>
                  used (qskills q) = None \<and>
                  mapJob r \<in> set (filter_type (qtype q) (filter_search (search q) [mapJob r])))"
    if r: "r \<in> set rows"
  proof -
    let ?us = "getUserSkills rawSkills"
    let ?F = "filter_skills (qskills q) (filter_type (qtype q) (filter_search (search q) (map mapJob rows)))"
    let ?js = "sort_js compare_desc (jobsWithMatchScore q rows ?us)"
    have g: "get_jobs q (Some rows) None rawSkills = Success ?js"
      by (simp add: get_jobs_def)
    have "set ?js = set (jobsWithMatchScore q rows ?us)"
      using mset_desc by (metis set_mset_mset)
    then have js: "set ?js = withMatchScore ?us ` set ?F"
      by (simp add: jobsWithMatchScore_def)
    have F: "mapJob r \<in> set ?F \<longleftrightarrow>
        used (qskills q) = None \<and>
        mapJob r \<in> set (filter_type (qtype q) (filter_search (search q) [mapJob r]))"
    proof -
      have "mapJob r \<in> set (map mapJob rows)" using r by simp
      then have "mapJob r \<in> set (filter_type (qtype q) (filter_search (search q) (map mapJob rows)))
          \<longleftrightarrow> mapJob r \<in> set (filter_type (qtype q) (filter_search (search q) [mapJob r]))"
        using in_filter_type [of "mapJob r" "qtype q" "filter_search (search q) (map mapJob rows)"]
          in_filter_type [of "mapJob r" "qtype q" "filter_search (search q) [mapJob r]"]
          in_filter_search [of "mapJob r" "search q" "map mapJob rows"]
        by blast
      then show ?thesis
        using in_filter_skills_no_skills [OF s, of "qskills q"] by blast
    qed
    have "mapJob r \<in> set ?js \<longleftrightarrow> mapJob r \<in> set ?F"
    proof
      assume "mapJob r \<in> set ?F"
      then have "withMatchScore ?us (mapJob r) \<in> set ?js" unfolding js by (rule imageI)
      then show "mapJob r \<in> set ?js" by (simp only: w)
    next
      assume "mapJob r \<in> set ?js"
      then obtain j0 where j0: "j0 \<in> set ?F" and e: "mapJob r = withMatchScore ?us j0"
        unfolding js by (rule imageE)
      from j0 have "j0 \<in> set (map mapJob rows)"
        using filter_skills_subset filter_type_subset filter_search_subset by blast
      then obtain r' where r': "j0 = mapJob r'" by auto
      have "skills j0 = skills (withMatchScore ?us j0)" by (simp only: withMatchScore_skills)
      also have "\<dots> = []" using s e by simp
      finally have "withMatchScore ?us j0 = j0"
        using mapJob_base [of r'] unfolding r' by (rule withMatchScore_no_skills)
      with e j0 show "mapJob r \<in> set ?F" by simp
    qed
    with F g show ?thesis by blast
  qed
  show ?thesis
    using d w one listing by (simp add: get_job_found)
qed


theorem no_tokens_skill_score_zero_witness:
  "parseSkillsText (qualification
      \<lparr>row_id = 4, row_company = Some ''Acme'', job_title = Some ''Developer'',
       job_function = Some ''Python, SQL'', vacancies = Some ''2'',
       qualification = Some '' , / '', experience = Some ''2-4 years''\<rparr>) = [] \<and>
   dynamicMatch [''Python'', ''SQL'']
     (mapJob \<lparr>row_id = 4, row_company = Some ''Acme'', job_title = Some ''Developer'',
       job_function = Some ''Python, SQL'', vacancies = Some ''2'',
       qualification = Some '' , / '', experience = Some ''2-4 years''\<rparr>) = 0 \<and>
   reported (get_job (Some 4)
     (Some \<lparr>row_id = 4, row_company = Some ''Acme'', job_title = Some ''Developer'',
       job_function = Some ''Python, SQL'', vacancies = Some ''2'',
       qualification = Some '' , / '', experience = Some ''2-4 years''\<rparr>)
     None (Some (JArray [JString ''Python'', JString ''SQL'']))) = Some 60 \<and>
   (case get_jobs \<lparr>search = Some ''dev'', qtype = None, qskills = None\<rparr>
      (Some [\<lparr>row_id = 3, row_company = Some ''Bolt'', job_title = Some ''Python Developer'',
               job_function = Some ''Software'', vacancies = None,
               qualification = Some ''Python, SQL'', experience = Some ''Fresher''\<rparr>,
             \<lparr>row_id = 4, row_company = Some ''Acme'', job_title = Some ''Developer'',
               job_function = Some ''Python, SQL'', vacancies = Some ''2'',
               qualification = Some '' , / '', experience = Some ''2-4 years''\<rparr>])
      None (Some (JArray [JString ''Python'', JString ''SQL''])) of
      Success js \<Rightarrow>
        map job_id js = [''3'', ''4''] \<and> map matchPercentage js = [100, 60] \<and>
        mapJob \<lparr>row_id = 4, row_company = Some ''Acme'', job_title = Some ''Developer'',
               job_function = Some ''Python, SQL'', vacancies = Some ''2'',
               qualification = Some '' , / '', experience = Some ''2-4 years''\<rparr> \<in> set js
    | Failure st msg \<Rightarrow> False) \<and>
   (case get_jobs \<lparr>search = None, qtype = None, qskills = Some ''python''\<rparr>
      (Some [\<lparr>row_id = 3, row_company = Some ''Bolt'', job_title = Some ''Python Developer'',
               job_function = Some ''Software'', vacancies = None,
               qualification = Some ''Python, SQL'', experience = Some ''Fresher''\<rparr>,
             \<lparr>row_id = 4, row_company = Some ''Acme'', job_title = Some ''Developer'',
               job_function = Some ''Python, SQL'', vacancies = Some ''2'',
               qualification = Some '' , / '', experience = Some ''2-4 years''\<rparr>])
      None (Some (JArray [JString ''Python'', JString ''SQL''])) of
      Success js \<Rightarrow>
        map job_id js = [''3''] \<and>
        mapJob \<lparr>row_id = 4, row_company = Some ''Acme'', job_title = Some ''Developer'',
               job_function = Some ''Python, SQL'', vacancies = Some ''2'',
               qualification = Some '' , / '', experience = Some ''2-4 years''\<rparr> \<notin> set js
    | Failure st msg \<Rightarrow> False)"
  (is "parseSkillsText (qualification ?r) = [] \<and> dynamicMatch ?us _ = 0 \<and>
       reported (get_job ?i _ None ?raw) = Some 60 \<and>
       (case get_jobs ?q1 (Some ?rows) None _ of Success js \<Rightarrow> ?A1 js \<and> ?B1 js \<and> ?C1 js | Failure st msg \<Rightarrow> False) \<and>
       (case get_jobs ?q2 _ None _ of Success js \<Rightarrow> ?A2 js \<and> ?C2 js | Failure st msg \<Rightarrow> False)")
proof -
  have h: "parseSkillsText (qualification ?r) = []" by code_simp
  have r: "?r \<in> set ?rows" by simp
  note t1 = no_tokens_skill_score_zero [OF h, of ?us 4 ?raw ?rows ?q1]
  note t2 = no_tokens_skill_score_zero [OF h, of ?us 4 ?raw ?rows ?q2]
  note d = t1 [THEN conjunct1]
  note g = t1 [THEN conjunct2, THEN conjunct2, THEN conjunct1]
  have rep: "reported (Success (mapJob ?r)) = Some 60"
    by (simp add: reported_def mapJob_base)
  from t1 [THEN conjunct2, THEN conjunct2, THEN conjunct2, THEN conjunct2, THEN mp, OF r]
  obtain js1 where l1: "get_jobs ?q1 (Some ?rows) None ?raw = Success js1"
    and i1: "mapJob ?r \<in> set js1 \<longleftrightarrow>
      used (qskills ?q1) = None \<and>
      mapJob ?r \<in> set (filter_type (qtype ?q1) (filter_search (search ?q1) [mapJob ?r]))"
    by (elim exE conjE)
  from t2 [THEN conjunct2, THEN conjunct2, THEN conjunct2, THEN conjunct2, THEN mp, OF r]
  obtain js2 where l2: "get_jobs ?q2 (Some ?rows) None ?raw = Success js2"
    and i2: "mapJob ?r \<in> set js2 \<longleftrightarrow>
      used (qskills ?q2) = None \<and>
      mapJob ?r \<in> set (filter_type (qtype ?q2) (filter_search (search ?q2) [mapJob ?r]))"
    by (elim exE conjE)
  have p1: "used (qskills ?q1) = None \<and>
      mapJob ?r \<in> set (filter_type (qtype ?q1) (filter_search (search ?q1) [mapJob ?r]))"
    by code_simp
  have p2: "used (qskills ?q2) \<noteq> None"
    by (simp add: used_def truthy_def)
  from i1 p1 have c1: "?C1 js1" by (simp only:)
  from i2 p2 have c2: "?C2 js2" by (simp only:) simp
  have "case get_jobs ?q1 (Some ?rows) None ?raw of
          Success js \<Rightarrow> ?A1 js \<and> ?B1 js | Failure st msg \<Rightarrow> False"
    by code_simp
  then have a1: "?A1 js1 \<and> ?B1 js1" unfolding l1 by simp
  have "case get_jobs ?q2 (Some ?rows) None ?raw of
          Success js \<Rightarrow> ?A2 js | Failure st msg \<Rightarrow> False"
    by code_simp
  then have a2: "?A2 js2" unfolding l2 by simp
  from h d g rep a1 c1 a2 c2 show ?thesis
    unfolding l1 l2 by simp
qed

section \<open>The tokens of a skills text\<close>

lemma split_str_nonempty: "split_str p s \<noteq> []"
  by (induction s) (auto split: list.splits)

lemma split_str_length: "length (split_str p s) = Suc (length (filter p s))"
  by (induction s) (auto split: list.splits simp: split_str_nonempty)

lemma split_str_pieces: "\<forall>w \<in> set (split_str p s). \<forall>c \<in> set w. \<not> p c"
  by (induction s) (auto split: list.splits)

lemma split_str_no_sep: "w \<in> set (split_str p s) \<Longrightarrow> c \<in> set w \<Longrightarrow> \<not> p c"
  using split_str_pieces by blast

lemma split_str_concat: "concat (split_str p s) = filter (\<lambda>c. \<not> p c) s"
  by (induction s) (auto split: list.splits simp: split_str_nonempty)

text \<open>
  The pieces, each followed by the separator that ended it, and then the last piece,
  give the string back.
\<close>

lemma split_str_reconstruct:
  "concat (map2 (\<lambda>w c. w @ [c]) (split_str p s) (filter p s)) @ last (split_str p s) = s"
proof (induction s)
  case Nil
  show ?case by simp
next
  case (Cons c cs)
  obtain w ws where e: "split_str p cs = w # ws"
    using split_str_nonempty [of p cs] by (cases "split_str p cs") auto
  show ?case
  proof (cases "p c")
    case True
    with Cons e show ?thesis by simp
  next
    case False
    show ?thesis
    proof (cases "filter p cs")
      case Nil
      with Cons e False show ?thesis
        using split_str_length [of p cs] by simp
    next
      case (Cons d ds)
      with Cons.IH e False show ?thesis
        using split_str_length [of p cs] by (cases ws) auto
    qed
  qed
qed

lemma last_dropWhile: "dropWhile P xs \<noteq> [] \<Longrightarrow> last (dropWhile P xs) = last xs"
  by (induction xs) (auto split: if_splits)

lemma trim_ends:
  "trim s = [] \<or> (\<not> is_space (hd (trim s)) \<and> \<not> is_space (last (trim s)))"
proof (cases "trim s = []")
  case True
  then show ?thesis by simp
next
  case False
  let ?a = "dropWhile is_space s"
  let ?b = "dropWhile is_space (rev ?a)"
  from False have b: "?b \<noteq> []" by (simp add: trim_def)
  have a: "?a \<noteq> []"
  proof
    assume e: "?a = []"
    show False using b unfolding e by simp
  qed
  have "\<not> is_space (hd ?b)" using b by (rule hd_dropWhile)
  then have l: "\<not> is_space (last (trim s))"
    using b by (simp add: trim_def last_rev)
  have "last ?b = last (rev ?a)" using b by (rule last_dropWhile)
  then have "hd (trim s) = hd ?a"
    using a b by (simp add: trim_def hd_rev last_rev)
  moreover have "\<not> is_space (hd ?a)" using a by (rule hd_dropWhile)
  ultimately show ?thesis using l by simp
qed

lemma trim_fixed:
  assumes "t = [] \<or> (\<not> is_space (hd t) \<and> \<not> is_space (last t))"
  shows "trim t = t"
proof (cases "t = []")
  case True
  then show ?thesis by (simp add: trim_def)
next
  case False
  with assms have h: "\<not> is_space (hd t)" and l: "\<not> is_space (last t)" by auto
  from False h have 1: "dropWhile is_space t = t"
    by (simp add: dropWhile_eq_self_iff)
  from False l have 2: "dropWhile is_space (rev t) = rev t"
    by (simp add: dropWhile_eq_self_iff hd_rev)
  show ?thesis by (simp add: trim_def 1 2)
qed

lemma trim_idem: "trim (trim s) = trim s"
  by (rule trim_fixed) (rule trim_ends)

lemma set_trim: "set (trim s) \<subseteq> set s"
proof -
  have "set (trim s) \<subseteq> set (dropWhile is_space s)"
    unfolding trim_def set_rev using set_dropWhileD [of _ is_space "rev (dropWhile is_space s)"]
    by auto
  then show ?thesis
    using set_dropWhileD [of _ is_space s] by blast
qed

text \<open>
  Claim C7, as stated, fails: the tokens are split on the slash and on the bar as
  well as on the comma.
\<close>

theorem comma_tokenization_counterexample:
  "parseSkillsText (Some ''C/C++, CI|CD'') = [''C'', ''C++'', ''CI'', ''CD''] \<and>
   spec_tokenizeCsv ''C/C++, CI|CD'' = [''C/C++'', ''CI|CD'']"
  by code_simp

text \<open>
  Claim C7, amended. For every input string, \<open>parseSkillsText\<close> returns the trimmed,
  non-empty tokens obtained by splitting the input at every comma, slash and bar, in
  their order; a token is never empty, has no blank at either end and holds none of
  the three separators; on a null or empty input the result is empty.
\<close>

theorem parseSkillsText_tokens:
  "parseSkillsText None = [] \<and> parseSkillsText (Some []) = [] \<and>
   parseSkillsText (Some s) =
     filter (\<lambda>t. t \<noteq> [])
       (map trim (split_str (\<lambda>c. c = CHR '','' \<or> c = CHR ''/'' \<or> c = CHR ''|'') s)) \<and>
   (\<forall>t \<in> set (parseSkillsText v).
      t \<noteq> [] \<and> trim t = t \<and> \<not> is_space (hd t) \<and> \<not> is_space (last t) \<and>
      CHR '','' \<notin> set t \<and> CHR ''/'' \<notin> set t \<and> CHR ''|'' \<notin> set t)"
proof (intro conjI ballI)
  show "parseSkillsText None = []" "parseSkillsText (Some []) = []"
    by (simp_all add: parseSkillsText_def truthy_def)
  have tr: "truthy = (\<lambda>t. t \<noteq> [])"
    by (rule ext) (simp add: truthy_def)
  have sep: "is_sep = (\<lambda>c. c = CHR '','' \<or> c = CHR ''/'' \<or> c = CHR ''|'')"
    by (rule ext) (simp add: is_sep_def)
  show "parseSkillsText (Some s) =
     filter (\<lambda>t. t \<noteq> [])
       (map trim (split_str (\<lambda>c. c = CHR '','' \<or> c = CHR ''/'' \<or> c = CHR ''|'') s))"
    unfolding sep [symmetric] tr [symmetric]
  proof (cases s)
    case Nil
    then show "parseSkillsText (Some s) = filter truthy (map trim (split_str is_sep s))"
      by (simp add: parseSkillsText_def truthy_def trim_def)
  next
    case (Cons c cs)
    then have "truthy s" by (simp add: truthy_def)
    then show "parseSkillsText (Some s) = filter truthy (map trim (split_str is_sep s))"
      by (simp add: parseSkillsText_def)
  qed
next
  fix t assume "t \<in> set (parseSkillsText v)"
  then obtain s w where w: "w \<in> set (split_str is_sep s)" and t: "t = trim w" and ne: "t \<noteq> []"
    by (auto simp: parseSkillsText_def truthy_def split: option.splits if_splits)
  show "t \<noteq> []" by (rule ne)
  show "trim t = t" unfolding t by (rule trim_idem)
  from trim_ends [of w] ne show "\<not> is_space (hd t)" "\<not> is_space (last t)"
    unfolding t by auto
  have "\<not> is_sep c" if "c \<in> set t" for c
    using that set_trim [of w] split_str_no_sep [OF w] unfolding t by blast
  then show "CHR '','' \<notin> set t" "CHR ''/'' \<notin> set t" "CHR ''|'' \<notin> set t"
    by (auto simp: is_sep_def)
qed

theorem parseSkillsText_tokens_witness:
  "parseSkillsText (Some '' Python ,SQL/ REST API |, '') = [''Python'', ''SQL'', ''REST API''] \<and>
   list_all (\<lambda>t. t \<noteq> [] \<and> trim t = t \<and> \<not> is_space (hd t) \<and> \<not> is_space (last t) \<and>
                  CHR '','' \<notin> set t \<and> CHR ''/'' \<notin> set t \<and> CHR ''|'' \<notin> set t)
     [''Python'', ''SQL'', ''REST API'']"
  (is "parseSkillsText ?v = ?ts \<and> list_all ?P ?ts")
proof -
  have e: "parseSkillsText ?v = ?ts" by code_simp
  have "\<forall>t \<in> set ?ts. ?P t"
    using parseSkillsText_tokens [of "[]" ?v, THEN conjunct2, THEN conjunct2, THEN conjunct2]
    unfolding e .
  then have "list_all ?P ?ts"
    by (simp only: list_all_iff)
  with e show ?thesis by (rule conjI)
qed

section \<open>The order of the skill-gap analysis\<close>

lemma sorted_wrt_asc:
  "sorted_wrt (\<lambda>a b. overallMatch a \<le> overallMatch b) (sort_js compare_asc xs)"
  using sorted_asc [of xs] by (simp add: sorted_map)

lemma mset_asc: "mset (sort_js compare_asc xs) = mset xs"
  by (simp add: sort_asc)

lemma stable_asc:
  "filter (\<lambda>a. overallMatch a = p) (sort_js compare_asc xs) = filter (\<lambda>a. overallMatch a = p) xs"
  using sort_key_stable [of overallMatch p xs] by (simp add: sort_asc)

text \<open>
  Claim C9. Both skill-gap routes (on the \<open>jobs\<close> table and on the in-memory
  database) return the analysis sorted by \<open>overallMatch\<close>, lowest first: the
  returned list is the per-job analyses of all the jobs, each once, in ascending
  order, and analyses of equal match keep the order of their jobs. The job listing is
  sorted the other way, highest score first.
\<close>

theorem skill_gap_sorted_ascending:
  "(get_skill_gap jobsRows error rawSkills = Success b \<longrightarrow>
      sorted_wrt (\<lambda>a1 a2. overallMatch a1 \<le> overallMatch a2) (analysis_list b) \<and>
      mset (analysis_list b) =
        mset (jobAnalysis (map toLowerCase (getUserSkills rawSkills))
                (case jobsRows of None \<Rightarrow> [] | Some rows \<Rightarrow> rows)) \<and>
      (\<forall>p. filter (\<lambda>a. overallMatch a = p) (analysis_list b) =
           filter (\<lambda>a. overallMatch a = p)
             (jobAnalysis (map toLowerCase (getUserSkills rawSkills))
                (case jobsRows of None \<Rightarrow> [] | Some rows \<Rightarrow> rows)))) \<and>
   (get_skill_gap_db prof jobs = Success b' \<longrightarrow>
      sorted_wrt (\<lambda>a1 a2. overallMatch a1 \<le> overallMatch a2) (analysis_list b') \<and>
      length (analysis_list b') = length jobs \<and>
      mset (analysis_list b') =
        mset (map (\<lambda>j. analyse (case prof of None \<Rightarrow> [] | Some p \<Rightarrow> map toLowerCase (profile_skills p))
                         (title j) (company j) (skills j)) jobs) \<and>
      (\<forall>p. filter (\<lambda>a. overallMatch a = p) (analysis_list b') =
           filter (\<lambda>a. overallMatch a = p)
             (map (\<lambda>j. analyse (case prof of None \<Rightarrow> [] | Some p \<Rightarrow> map toLowerCase (profile_skills p))
                         (title j) (company j) (skills j)) jobs))) \<and>
   (get_jobs q data error' rawSkills' = Success js \<longrightarrow>
      sorted_wrt (\<lambda>j1 j2. matchPercentage j2 \<le> matchPercentage j1) js)"
proof (intro conjI impI allI)
  assume "get_skill_gap jobsRows error rawSkills = Success b"
  then have e: "analysis_list b =
      sort_js compare_asc (jobAnalysis (map toLowerCase (getUserSkills rawSkills))
                (case jobsRows of None \<Rightarrow> [] | Some rows \<Rightarrow> rows))"
    by (auto simp: get_skill_gap_def Let_def split: option.splits)
  show "sorted_wrt (\<lambda>a1 a2. overallMatch a1 \<le> overallMatch a2) (analysis_list b)"
    unfolding e by (rule sorted_wrt_asc)
  show "mset (analysis_list b) =
        mset (jobAnalysis (map toLowerCase (getUserSkills rawSkills))
                (case jobsRows of None \<Rightarrow> [] | Some rows \<Rightarrow> rows))"
    unfolding e by (rule mset_asc)
  show "filter (\<lambda>a. overallMatch a = p) (analysis_list b) =
           filter (\<lambda>a. overallMatch a = p)
             (jobAnalysis (map toLowerCase (getUserSkills rawSkills))
                (case jobsRows of None \<Rightarrow> [] | Some rows \<Rightarrow> rows))" for p
    unfolding e by (rule stable_asc)
next
  let ?us = "case prof of None \<Rightarrow> [] | Some p \<Rightarrow> map toLowerCase (profile_skills p)"
  let ?an = "map (\<lambda>j. analyse ?us (title j) (company j) (skills j)) jobs"
  assume "get_skill_gap_db prof jobs = Success b'"
  then have e: "analysis_list b' = sort_js compare_asc ?an"
    by (auto simp: get_skill_gap_db_def Let_def)
  show "sorted_wrt (\<lambda>a1 a2. overallMatch a1 \<le> overallMatch a2) (analysis_list b')"
    unfolding e by (rule sorted_wrt_asc)
  show m: "mset (analysis_list b') = mset ?an"
    unfolding e by (rule mset_asc)
  have "size (mset (analysis_list b')) = size (mset ?an)"
    by (simp only: m)
  then show "length (analysis_list b') = length jobs"
    by simp
  show "filter (\<lambda>a. overallMatch a = p) (analysis_list b') = filter (\<lambda>a. overallMatch a = p) ?an" for p
    unfolding e by (rule stable_asc)
next
  assume "get_jobs q data error' rawSkills' = Success js"
  from get_jobs_Success [OF this]
  show "sorted_wrt (\<lambda>j1 j2. matchPercentage j2 \<le> matchPercentage j1) js"
    by (simp add: sorted_desc)
qed

theorem skill_gap_sorted_ascending_witness:
  "(case get_skill_gap
          (Some [\<lparr>row_id = 1, row_company = Some ''Acme'', job_title = Some ''Developer'',
                   job_function = None, vacancies = None,
                   qualification = Some ''Python, SQL'', experience = None\<rparr>,
                 \<lparr>row_id = 2, row_company = Some ''Bolt'', job_title = None,
                   job_function = None, vacancies = None,
                   qualification = Some ''Django / Redis'', experience = None\<rparr>,
                 \<lparr>row_id = 3, row_company = None, job_title = Some ''Analyst'',
                   job_function = None, vacancies = None,
                   qualification = Some ''SQL | Excel'', experience = None\<rparr>])
          None (Some (JArray [JString ''Python'', JString ''Sql''])) of
      Success b \<Rightarrow>
        (map jobTitle (analysis_list b) = [''Untitled Role'', ''Analyst'', ''Developer''] \<and>
         map overallMatch (analysis_list b) = [0, 50, 100] \<and>
         totalGaps b = 3) \<and>
        sorted_wrt (\<lambda>a1 a2. overallMatch a1 \<le> overallMatch a2) (analysis_list b)
    | Failure st msg \<Rightarrow> False) \<and>
   (case get_skill_gap_db
          (Some \<lparr>profile_userId = ''u1'', profile_name = ''Asha'', profile_email = ''asha@example.org'',
                  profile_phone = [], profile_education = [], profile_experience = [],
                  profile_skills = [''react'', ''TypeScript''], profile_resumeUrl = None,
                  profile_updatedAt = ''2026-01-01''\<rparr>)
          [\<lparr>job_id = ''1'', title = ''Senior Frontend Developer'', company = ''TechCorp Inc.'',
             location = ''San Francisco, CA'', salary = ''$120k - $160k'', job_type = ''Full-time'',
             skills = [''React'', ''TypeScript'', ''Node.js'', ''GraphQL''], matchPercentage = 95,
             postedDate = ''2 days ago'',
             description = ''We are looking for an experienced Frontend Developer...''\<rparr>,
           \<lparr>job_id = ''2'', title = ''Full Stack Engineer'', company = ''StartupXYZ'',
             location = ''Remote'', salary = ''$100k - $140k'', job_type = ''Full-time'',
             skills = [''React'', ''Python'', ''AWS'', ''PostgreSQL''], matchPercentage = 88,
             postedDate = ''1 week ago'',
             description = ''Join our fast-growing startup as a Full Stack Engineer...''\<rparr>,
           \<lparr>job_id = ''4'', title = ''Software Engineer'', company = ''Innovation Labs'',
             location = ''Austin, TX'', salary = ''$110k - $150k'', job_type = ''Full-time'',
             skills = [''TypeScript'', ''Node.js'', ''Docker'', ''Kubernetes''], matchPercentage = 85,
             postedDate = ''5 days ago'', description = ''Join our engineering team...''\<rparr>] of
      Success b \<Rightarrow>
        (map jobTitle (analysis_list b) =
           [''Full Stack Engineer'', ''Software Engineer'', ''Senior Frontend Developer''] \<and>
         map overallMatch (analysis_list b) = [25, 25, 50] \<and>
         map matchingSkills (analysis_list b) = [[''React''], [''TypeScript''], [''React'', ''TypeScript'']] \<and>
         gap_userSkills b = [''react'', ''TypeScript''] \<and>
         totalGaps b = 8) \<and>
        (sorted_wrt (\<lambda>a1 a2. overallMatch a1 \<le> overallMatch a2) (analysis_list b) \<and>
         length (analysis_list b) = 3)
    | Failure st msg \<Rightarrow> False) \<and>
   (case get_jobs \<lparr>search = None, qtype = None, qskills = None\<rparr>
          (Some [\<lparr>row_id = 1, row_company = Some ''Acme'', job_title = Some ''Clerk'',
                   job_function = Some ''Office'', vacancies = Some ''2'',
                   qualification = Some ''B.Tech'', experience = Some ''Fresher''\<rparr>,
                 \<lparr>row_id = 2, row_company = Some ''Bolt'', job_title = Some ''Developer'',
                   job_function = Some ''Software'', vacancies = None,
                   qualification = Some ''Python, SQL'', experience = Some ''2-4 years''\<rparr>])
          None (Some (JArray [JString ''Python'', JString ''Sql''])) of
      Success js \<Rightarrow>
        map matchPercentage js = [100, 60] \<and>
        sorted_wrt (\<lambda>j1 j2. matchPercentage j2 \<le> matchPercentage j1) js
    | Failure st msg \<Rightarrow> False)"
  (is "(case get_skill_gap ?rows None ?raw of Success b \<Rightarrow> ?A b \<and> ?B b | Failure st msg \<Rightarrow> False) \<and>
       (case get_skill_gap_db ?prof ?jobs of Success b \<Rightarrow> ?C b \<and> ?D b | Failure st msg \<Rightarrow> False) \<and>
       (case get_jobs ?q ?data None _ of Success js \<Rightarrow> ?E js \<and> ?F js | Failure st msg \<Rightarrow> False)"
   is "(case ?G of Success b \<Rightarrow> _ | Failure st msg \<Rightarrow> False) \<and>
       (case ?H of Success b \<Rightarrow> _ | Failure st msg \<Rightarrow> False) \<and>
       (case ?L of Success js \<Rightarrow> _ | Failure st msg \<Rightarrow> False)")
proof -
  have G: "case ?G of Success b \<Rightarrow> ?A b | Failure st msg \<Rightarrow> False"
    by code_simp
  from Success_caseD [where res = ?G and P = ?A, OF G]
  obtain b where g: "?G = Success b" and a: "?A b"
    by (elim exE) (rule that, erule conjunct1, erule conjunct2)
  have H: "case ?H of Success b \<Rightarrow> ?C b | Failure st msg \<Rightarrow> False"
    by code_simp
  from Success_caseD [where res = ?H and P = ?C, OF H]
  obtain b' where h: "?H = Success b'" and c: "?C b'"
    by (elim exE) (rule that, erule conjunct1, erule conjunct2)
  have L: "case ?L of Success js \<Rightarrow> ?E js | Failure st msg \<Rightarrow> False"
    by code_simp
  from Success_caseD [where res = ?L and P = ?E, OF L]
  obtain js where l: "?L = Success js" and e: "?E js"
    by (elim exE conjE)
  note t = skill_gap_sorted_ascending [of ?rows None ?raw b ?prof ?jobs b' ?q ?data None ?raw js]
  note tb = t [THEN conjunct1, THEN mp, OF g, THEN conjunct1]
  note td = t [THEN conjunct2, THEN conjunct1, THEN mp, OF h]
  note tf = t [THEN conjunct2, THEN conjunct2, THEN mp, OF l]
  have d: "?D b'"
    using td [THEN conjunct1] td [THEN conjunct2, THEN conjunct1] by simp
  from a tb c d e tf show ?thesis unfolding g h l by simp
qed

section \<open>Adding a skill to the profile\<close>

lemma strings_of_JString: "strings_of (map JString xs) = xs"
  by (induction xs) simp_all

lemma strings_of_append: "strings_of (vs @ ws) = strings_of vs @ strings_of ws"
  by (induction vs rule: strings_of.induct) simp_all

lemma currentSkills_of_Cons:
  "currentSkills_of (r\<lparr>extracted_skills := JArray vs\<rparr> # rs) = strings_of vs"
  by (simp add: currentSkills_of_def getLatestResume_def normalizeSkills_def)

lemma dynamicMatch_user_set:
  "toLowerCase ` set us1 = toLowerCase ` set us2 \<Longrightarrow> dynamicMatch us1 j = dynamicMatch us2 j"
  by (simp add: dynamicMatch_formula)

text \<open>
  Claim C10. Adding a skill that the stored list holds already, as the very same
  string, is answered with status 409 and leaves the store as it was. Any other
  non-empty string, also one that differs from a stored skill in letter case only, is
  appended: the answer carries the stored list with the skill at its end, and so does
  the store once the database has taken the write. For the score the appended variant
  changes nothing, since scoring ignores letter case.
\<close>

theorem add_skill_duplicate_is_case_sensitive:
  assumes "skill \<noteq> []"
  shows "(skill \<in> set (currentSkills_of store) \<longrightarrow>
            add_skill (Some (JString skill)) write_ok new_id now store =
              (Failure 409 ''Skill already exists'', store)) \<and>
         (skill \<notin> set (currentSkills_of store) \<longrightarrow>
            fst (add_skill (Some (JString skill)) write_ok new_id now store) =
              Success (currentSkills_of store @ [skill]) \<and>
            currentSkills_of (snd (add_skill (Some (JString skill)) True new_id now store)) =
              currentSkills_of store @ [skill]) \<and>
         (toLowerCase skill \<in> toLowerCase ` set (currentSkills_of store) \<longrightarrow>
            dynamicMatch (currentSkills_of store @ [skill]) j = dynamicMatch (currentSkills_of store) j)"
proof (intro conjI impI)
  assume "skill \<in> set (currentSkills_of store)"
  with assms show "add_skill (Some (JString skill)) write_ok new_id now store =
              (Failure 409 ''Skill already exists'', store)"
    by (simp add: add_skill_def truthy_def currentSkills_of_def Let_def)
next
  assume n: "skill \<notin> set (currentSkills_of store)"
  with assms show "fst (add_skill (Some (JString skill)) write_ok new_id now store) =
              Success (currentSkills_of store @ [skill])"
    by (simp add: add_skill_def truthy_def currentSkills_of_def Let_def)
  show "currentSkills_of (snd (add_skill (Some (JString skill)) True new_id now store)) =
              currentSkills_of store @ [skill]"
  proof (cases store)
    case Nil
    with assms n show ?thesis
      by (simp add: add_skill_def truthy_def currentSkills_of_def getLatestResume_def
          normalizeSkills_def strings_of_JString Let_def)
  next
    case (Cons r rs)
    have c: "normalizeSkills (Some (extracted_skills r)) = currentSkills_of store"
      by (simp add: Cons currentSkills_of_def getLatestResume_def)
    from assms n Cons show ?thesis
      by (simp add: add_skill_def truthy_def getLatestResume_def Let_def c currentSkills_of_Cons
          strings_of_append strings_of_JString)
  qed
next
  assume "toLowerCase skill \<in> toLowerCase ` set (currentSkills_of store)"
  then have "toLowerCase ` set (currentSkills_of store @ [skill]) = toLowerCase ` set (currentSkills_of store)"
    by auto
  then show "dynamicMatch (currentSkills_of store @ [skill]) j = dynamicMatch (currentSkills_of store) j"
    by (rule dynamicMatch_user_set)
qed


theorem add_skill_duplicate_is_case_sensitive_witness:
  "''python'' \<noteq> [] \<and>
   currentSkills_of [\<lparr>resume_id = ''r1'', file_url = None,
                       extracted_skills = JArray [JString ''Python'', JNumber 7, JString ''SQL''],
                       parsed_role = Some ''Developer'', created_at = ''2026-01-01''\<rparr>]
     = [''Python'', ''SQL''] \<and>
   add_skill (Some (JString ''Python'')) True ''r2'' ''2026-02-02''
     [\<lparr>resume_id = ''r1'', file_url = None,
        extracted_skills = JArray [JString ''Python'', JNumber 7, JString ''SQL''],
        parsed_role = Some ''Developer'', created_at = ''2026-01-01''\<rparr>]
     = (Failure 409 ''Skill already exists'',
        [\<lparr>resume_id = ''r1'', file_url = None,
           extracted_skills = JArray [JString ''Python'', JNumber 7, JString ''SQL''],
           parsed_role = Some ''Developer'', created_at = ''2026-01-01''\<rparr>]) \<and>
   fst (add_skill (Some (JString ''python'')) True ''r2'' ''2026-02-02''
     [\<lparr>resume_id = ''r1'', file_url = None,
        extracted_skills = JArray [JString ''Python'', JNumber 7, JString ''SQL''],
        parsed_role = Some ''Developer'', created_at = ''2026-01-01''\<rparr>])
     = Success [''Python'', ''SQL'', ''python''] \<and>
   currentSkills_of (snd (add_skill (Some (JString ''python'')) True ''r2'' ''2026-02-02''
     [\<lparr>resume_id = ''r1'', file_url = None,
        extracted_skills = JArray [JString ''Python'', JNumber 7, JString ''SQL''],
        parsed_role = Some ''Developer'', created_at = ''2026-01-01''\<rparr>]))
     = [''Python'', ''SQL'', ''python'']"
  (is "?s \<noteq> [] \<and> currentSkills_of ?store = ?cur \<and> _ \<and> _ \<and> _")
proof -
  have ne: "?s \<noteq> []" and ne': "''Python'' \<noteq> []" by simp_all
  have cur: "currentSkills_of ?store = ?cur" by code_simp
  have dup: "''Python'' \<in> set (currentSkills_of ?store)"
    and new: "?s \<notin> set (currentSkills_of ?store)"
    unfolding cur by simp_all
  note a = add_skill_duplicate_is_case_sensitive [OF ne', of ?store True "''r2''" "''2026-02-02''"]
  note b = add_skill_duplicate_is_case_sensitive [OF ne, of ?store True "''r2''" "''2026-02-02''"]
  note 1 = a [THEN conjunct1, THEN mp, OF dup]
  note 2 = b [THEN conjunct2, THEN conjunct1, THEN mp, OF new, THEN conjunct1]
  note 3 = b [THEN conjunct2, THEN conjunct1, THEN mp, OF new, THEN conjunct2]
  from ne cur 1 2 3 show ?thesis
    unfolding cur by simp
qed

end
